theory Spec2Isabelle
  imports Complex_Main "HOL-Library.Sublist"
begin

section \<open>Data model\<close>

text \<open>
  The report structures of \<^verbatim>\<open>services/llmService.ts\<close> (the types come from the JSON schemas
  \<^verbatim>\<open>qaIssueSchema\<close>, \<^verbatim>\<open>scoresSchema\<close>, \<^verbatim>\<open>overallSchema\<close>, \<^verbatim>\<open>summarySchema\<close> and
  \<^verbatim>\<open>reportResponseSchema\<close>). Categories, severities and quality levels are strings in
  the code, which compares them with string literals, so they are strings here. An
  optional field is an \<open>option\<close>; \<^verbatim>\<open>undefined\<close> is \<open>None\<close>. Strings are byte strings
  (UTF-8). Scores are JSON numbers; the code only copies them or assigns the literal 5.
\<close>

record issue =
  issue_id :: string
  location :: string
  issueCategory :: string
  severity :: string
  sourceText :: "string option"
  targetText :: "string option"
  description :: string
  suggestionRationale :: string
  suggestionsTarget :: "string list"
  glossarySource :: "string option"
  glossaryTermId :: "string option"

record scores =
  accuracy :: real
  terminology :: real
  layout :: real
  grammar :: real
  formatting :: real
  localizationTone :: real

record overall =
  qualityLevel :: string
  scores :: scores
  sceneDescription :: string
  mainProblemsSummary :: string

record summary =
  severeCount :: real
  majorCount :: real
  minorCount :: real
  optimizationAdvice :: string
  termAdvice :: "string option"

record report =
  screenshotId :: "string option"
  overall :: overall
  issues :: "issue list"
  summary :: summary

section \<open>Hallucination guard: \<^verbatim>\<open>sanitizeReport\<close>\<close>

text \<open>
  \<^verbatim>\<open>glossaryText.match(/\[ID:TERM-\d+\]/g)\<close>: all matches, left to right, the search
  resuming after the end of each match. \<^verbatim>\<open>\d+\<close> is greedy; giving digits back never
  helps, since the character after a shorter run of digits is a digit and not \<^verbatim>\<open>]\<close>.
\<close>

definition isDigit :: "char \<Rightarrow> bool" where
  "isDigit c = (c \<in> set ''0123456789'')"

definition matchTagAt :: "string \<Rightarrow> (string \<times> string) option" where
  "matchTagAt s =
     (if prefix ''[ID:TERM-'' s then
        (let t = drop 9 s; ds = takeWhile isDigit t; r = dropWhile isDigit t
         in (case r of
               [] \<Rightarrow> None
             | c # rest \<Rightarrow>
                 if ds \<noteq> [] \<and> c = CHR '']'' then Some (''[ID:TERM-'' @ ds @ '']'', rest)
                 else None))
      else None)"

lemma matchTagAt_shorter: "matchTagAt s = Some (m, rest) \<Longrightarrow> length rest < length s"
proof -
  assume a: "matchTagAt s = Some (m, rest)"
  then obtain c where r: "dropWhile isDigit (drop 9 s) = c # rest"
    by (auto simp: matchTagAt_def Let_def split: if_splits list.splits)
  have "length (dropWhile isDigit (drop 9 s)) \<le> length (drop 9 s)"
    by (rule length_dropWhile_le)
  with r show ?thesis by simp
qed

function matchAll :: "string \<Rightarrow> string list" where
  "matchAll [] = []"
| "matchAll (c # cs) =
     (case matchTagAt (c # cs) of
        Some (m, rest) \<Rightarrow> m # matchAll rest
      | None \<Rightarrow> matchAll cs)"
  by pat_completeness auto
termination
proof (relation "measure length")
  show "wf (measure length)" by simp
next
  fix c :: char and cs :: string and x2 :: "string \<times> string" and x y :: string
  assume "matchTagAt (c # cs) = Some x2" and "(x, y) = x2"
  then have "matchTagAt (c # cs) = Some (x, y)" by simp
  then have "length y < length (c # cs)" by (rule matchTagAt_shorter)
  then show "(y, c # cs) \<in> measure length" by simp
next
  fix c :: char and cs :: string
  show "(cs, c # cs) \<in> measure length" by simp
qed

declare matchAll.simps [simp del]

text \<open>
  \<^verbatim>\<open>const formattedId = termIdRaw ? `[ID:${termIdRaw}]` : null\<close>: an absent or empty
  id is falsy.
\<close>

definition formattedId :: "string option \<Rightarrow> string option" where
  "formattedId termIdRaw =
     (case termIdRaw of
        None \<Rightarrow> None
      | Some t \<Rightarrow> if t = [] then None else Some (''[ID:'' @ t @ '']''))"

text \<open>\<^verbatim>\<open>const isValid = formattedId && validIds.has(formattedId)\<close>\<close>

definition isValidTermId :: "string list \<Rightarrow> string option \<Rightarrow> bool" where
  "isValidTermId validIds termIdRaw =
     (case formattedId termIdRaw of
        None \<Rightarrow> False
      | Some f \<Rightarrow> f \<in> set validIds)"

text \<open>The body of the \<^verbatim>\<open>forEach\<close> over the issues, on one issue.\<close>

definition sanitizeIssue :: "string list \<Rightarrow> issue \<Rightarrow> issue" where
  "sanitizeIssue validIds i =
     (if issueCategory i = ''Terminology'' then
        (if \<not> isValidTermId validIds (glossaryTermId i) then
           i\<lparr>issueCategory := ''Style'',
             severity := ''Minor'',
             description := ''[Auto-Downgraded] '' @ description i
                            @ '' (Reason: Terminology ID not found in glossary)'',
             glossaryTermId := None,
             glossarySource := Some ''LLM Knowledge (Downgraded)''\<rparr>
         else i)
      else i)"

text \<open>
  \<^verbatim>\<open>if (!glossaryText) return;\<close> leaves the report as it is when the glossary is
  \<^verbatim>\<open>undefined\<close> or the empty string. The code mutates the report in place; the model
  returns the report after the call.
\<close>

definition sanitizeReport :: "report \<Rightarrow> string option \<Rightarrow> report" where
  "sanitizeReport r glossaryText =
     (case glossaryText of
        None \<Rightarrow> r
      | Some g \<Rightarrow>
          if g = [] then r
          else
            (let validIds = matchAll g;
                 r1 = r\<lparr>issues := map (sanitizeIssue validIds) (issues r)\<rparr>;
                 termIssues = filter (\<lambda>i. issueCategory i = ''Terminology'') (issues r1)
             in if length termIssues = 0
                then r1\<lparr>overall := (overall r1)\<lparr>scores :=
                          (scores (overall r1))\<lparr>terminology := 5\<rparr>\<rparr>\<rparr>
                else r1))"

text \<open>
  The words of the specification, for comparison: a term id matches a well-formed tag
  that is present in the glossary text when it is \<^verbatim>\<open>TERM-\<close> followed by one digit or more,
  and \<^verbatim>\<open>[ID:\<close>, the id and \<^verbatim>\<open>]\<close> occur as one run in the text.
\<close>

definition tagPresent :: "string \<Rightarrow> string \<Rightarrow> bool" where
  "tagPresent glossary termId =
     (prefix ''TERM-'' termId \<and> drop 5 termId \<noteq> [] \<and> list_all isDigit (drop 5 termId)
      \<and> sublist (''[ID:'' @ termId @ '']'') glossary)"

section \<open>String helpers\<close>

text \<open>
  \<^verbatim>\<open>String.prototype.includes\<close>: the argument
  occurs as a contiguous run of the string.
\<close>

fun str_includes :: "string \<Rightarrow> string \<Rightarrow> bool" where
  "str_includes [] kw = (kw = [])"
| "str_includes (c # cs) kw = (prefix kw (c # cs) \<or> str_includes cs kw)"

text \<open>
  \<^verbatim>\<open>String.prototype.toLowerCase\<close> on UTF-8 bytes. The letters A to Z go to a to z. Two
  code points outside ASCII have a lower case that contains an ASCII letter, and are
  written out: U+212A (Kelvin sign, bytes E2 84 AA) gives \<open>k\<close>, and U+0130 (capital I
  with dot above, bytes C4 B0) gives \<open>i\<close> followed by U+0307 (bytes CC 87). Every other
  byte is kept: the other case mappings take a character outside ASCII to characters
  outside ASCII, which no keyword or phrase of this program contains in cased form.
\<close>

definition lowerChar :: "char \<Rightarrow> char" where
  "lowerChar c =
     (case map_of (zip ''ABCDEFGHIJKLMNOPQRSTUVWXYZ'' ''abcdefghijklmnopqrstuvwxyz'') c of
        Some l \<Rightarrow> l
      | None \<Rightarrow> c)"

function toLowerCase :: "string \<Rightarrow> string" where
  "toLowerCase [] = []"
| "toLowerCase (c # cs) =
     (if prefix [CHR 0xE2, CHR 0x84, CHR 0xAA] (c # cs)
      then CHR ''k'' # toLowerCase (drop 2 cs)
      else if prefix [CHR 0xC4, CHR 0xB0] (c # cs)
      then [CHR ''i'', CHR 0xCC, CHR 0x87] @ toLowerCase (drop 1 cs)
      else lowerChar c # toLowerCase cs)"
  by pat_completeness auto
termination
  by (relation "measure length") auto

declare toLowerCase.simps [simp del]

section \<open>Names in scope in \<^verbatim>\<open>services/llmService.ts\<close>\<close>

text \<open>
  \<^verbatim>\<open>constants.ts\<close> exports two model ids.
\<close>

definition LLM_MODEL_ID :: string where
  "LLM_MODEL_ID = ''gemini-3.1-pro-preview''"

definition LLM_FALLBACK_MODEL_ID :: string where
  "LLM_FALLBACK_MODEL_ID = ''gemini-2.0-flash''"

datatype error =
  ApiKeyMissing | ImageProcessingFailed | GenerateContentFailed | EmptyResponse
  | InvalidJsonResponse | ReferenceError | HttpsApiKeyMissing | HttpsAnalysisFailed

text \<open>
  The only import of \<^verbatim>\<open>services/llmService.ts\<close> from \<^verbatim>\<open>constants.ts\<close> is
  \<^verbatim>\<open>import { getAnalysisSystemPrompt, LLM_MODEL_ID } from '../constants'\<close>, and the file
  declares no model id of its own. Reading a model id by its name gives the value when
  the name is bound and throws a \<^verbatim>\<open>ReferenceError\<close> otherwise. So
  \<^verbatim>\<open>LLM_FALLBACK_MODEL_ID\<close>, which the file reads at two places, throws at both.
\<close>

definition llmServiceScope :: "string \<Rightarrow> error + string" where
  "llmServiceScope name =
     (if name = ''LLM_MODEL_ID'' then Inr LLM_MODEL_ID else Inl ReferenceError)"

section \<open>Verifier agent: \<^verbatim>\<open>verifyIssues\<close>\<close>

text \<open>
  One entry of \<^verbatim>\<open>verifiedIssues\<close> (\<^verbatim>\<open>verificationSchema\<close>): \<^verbatim>\<open>id\<close>, \<^verbatim>\<open>isValid\<close> and
  \<^verbatim>\<open>reason\<close> are required by the schema; the code still reads \<^verbatim>\<open>verdict.reason || ''\<close>.
\<close>

record verdict =
  verdict_id :: string
  isValid :: bool
  reason :: "string option"
  refinedSeverity :: "string option"
  refinedRationale :: "string option"

text \<open>
  What one call of \<^verbatim>\<open>ai.models.generateContent\<close> gives the code, by the branch the code
  takes on it: the call throws; \<^verbatim>\<open>response.text\<close> is falsy (undefined or empty); the
  text, after the code fences are stripped, makes \<^verbatim>\<open>JSON.parse\<close> throw; or it parses to
  a value.
\<close>

datatype 'a response = CallThrows | EmptyText | InvalidJson | Parsed 'a

text \<open>
  \<^verbatim>\<open>verifiedIssuesMap\<close>: filled by \<^verbatim>\<open>forEach\<close> with \<^verbatim>\<open>Map.set\<close>, so a later verdict for
  the same id replaces an earlier one. The list is absent when \<^verbatim>\<open>verifiedIssues\<close> is
  missing or not an array.
\<close>

definition verifiedIssuesMap :: "verdict list option \<Rightarrow> (string \<rightharpoonup> verdict)" where
  "verifiedIssuesMap verifiedIssues =
     (case verifiedIssues of
        None \<Rightarrow> Map.empty
      | Some vs \<Rightarrow> fold (\<lambda>v m. m(verdict_id v \<mapsto> v)) vs Map.empty)"

definition isHallucination :: "string option \<Rightarrow> bool" where
  "isHallucination r =
     (let reasonLower = toLowerCase (case r of None \<Rightarrow> [] | Some s \<Rightarrow> s)
      in str_includes reasonLower ''hallucination''
         \<or> str_includes reasonLower ''not visible''
         \<or> str_includes reasonLower ''does not exist'')"

text \<open>
  The callback of \<^verbatim>\<open>initialReport.issues.filter\<close>: \<open>None\<close> when it returns false (the
  issue is removed), \<open>Some\<close> of the issue as the callback leaves it when it returns true.
\<close>

definition mergeVerdict :: "(string \<rightharpoonup> verdict) \<Rightarrow> issue \<Rightarrow> issue option" where
  "mergeVerdict m i =
     (case m (issue_id i) of
        None \<Rightarrow> Some i
      | Some v \<Rightarrow>
          if \<not> isValid v then
            (if (issueCategory i = ''Style'' \<or> issueCategory i = ''Formatting'')
                \<and> \<not> isHallucination (reason v)
             then Some (i\<lparr>severity := ''Minor'',
                          description := ''[Review: Minor] '' @ description i\<rparr>)
             else None)
          else
            (let i1 = (case refinedSeverity v of
                         None \<Rightarrow> i
                       | Some s \<Rightarrow> if s = [] then i else i\<lparr>severity := s\<rparr>);
                 i2 = (case refinedRationale v of
                         None \<Rightarrow> i1
                       | Some t \<Rightarrow> if t = [] then i1 else i1\<lparr>suggestionRationale := t\<rparr>)
             in Some i2))"

text \<open>
  \<^verbatim>\<open>verifyIssues\<close> of \<^verbatim>\<open>services/llmService.ts\<close>. \<open>primary\<close> is the answer to the
  verifier call on \<^verbatim>\<open>LLM_MODEL_ID\<close>. When that call throws, the code builds the
  argument of a second call with \<^verbatim>\<open>model: LLM_FALLBACK_MODEL_ID\<close>; reading that name
  throws inside the inner \<^verbatim>\<open>try\<close>, before \<^verbatim>\<open>generateContent\<close> is called, and the inner
  \<^verbatim>\<open>catch\<close> returns \<^verbatim>\<open>initialReport\<close>. \<open>fallback\<close> is the answer the second call would
  get if the name were bound.
\<close>

definition verifyIssues ::
  "verdict list option response \<Rightarrow> verdict list option response \<Rightarrow> report \<Rightarrow> report" where
  "verifyIssues primary fallback initialReport =
     (case (case primary of
              CallThrows \<Rightarrow>
                (case llmServiceScope ''LLM_FALLBACK_MODEL_ID'' of
                   Inl fallbackError \<Rightarrow> CallThrows
                 | Inr modelId \<Rightarrow> fallback)
            | _ \<Rightarrow> primary) of
        CallThrows \<Rightarrow> initialReport
      | EmptyText \<Rightarrow> initialReport
      | InvalidJson \<Rightarrow> initialReport
      | Parsed verifiedIssues \<Rightarrow>
          initialReport\<lparr>issues :=
            List.map_filter (mergeVerdict (verifiedIssuesMap verifiedIssues))
              (issues initialReport)\<rparr>)"

section \<open>Scene detection: \<^verbatim>\<open>detectSceneType\<close>\<close>








section \<open>Retry with backoff: \<^verbatim>\<open>retryWithBackoff\<close>\<close>

text \<open>
  The effects of the pipeline are the attempts of the retried function and the waits
  between them. The world is the trace of these events so far: an attempt, with what
  the model id it reads evaluated to (the id, or the error thrown by reading it), or a
  wait of so many milliseconds (\<^verbatim>\<open>setTimeout(resolve, delay)\<close>).
\<close>

datatype event = Attempt "error + string" | Delay nat

type_synonym world = "event list"

definition sleep :: "nat \<Rightarrow> world \<Rightarrow> world" where
  "sleep ms w = w @ [Delay ms]"

definition attemptsMade :: "world \<Rightarrow> nat" where
  "attemptsMade w = length (filter (\<lambda>e. case e of Attempt _ \<Rightarrow> True | Delay _ \<Rightarrow> False) w)"

text \<open>
  \<^verbatim>\<open>retryWithBackoff(fn, retries = 2, delay = 1000)\<close>. \<open>fn\<close> takes the world and returns
  its result (\<open>Inl\<close> when it throws) with the world after the call.
\<close>

fun retryWithBackoff ::
  "(world \<Rightarrow> ('e + 'a) \<times> world) \<Rightarrow> nat \<Rightarrow> nat \<Rightarrow> world \<Rightarrow> ('e + 'a) \<times> world" where
  "retryWithBackoff fn retries delay w =
     (case fn w of
        (Inr v, w1) \<Rightarrow> (Inr v, w1)
      | (Inl err, w1) \<Rightarrow>
          if retries = 0 then (Inl err, w1)
          else retryWithBackoff fn (retries - 1) (delay * 2) (sleep delay w1))"

declare retryWithBackoff.simps [simp del]

section \<open>The client pipeline: \<^verbatim>\<open>callTranslationQaLLM\<close>\<close>

record payload =
  payloadScreenshotId :: string
  targetLanguage :: string
  reportLanguage :: string
  glossaryText :: "string option"

text \<open>
  The value \<^verbatim>\<open>JSON.parse\<close> gives for the generation response: the report as the model
  wrote it, where \<^verbatim>\<open>issues\<close> may be missing.
\<close>

record modelOutput =
  out_screenshotId :: "string option"
  out_overall :: overall
  out_issues :: "issue list option"
  out_summary :: summary

text \<open>
  What the environment does during one run of \<^verbatim>\<open>runAnalysis\<close>: whether both images are
  fetched and converted (\<^verbatim>\<open>processImageUrl\<close> throws otherwise), the answer to the
  generation call, the answer to the verifier's call, and the answer that its fallback
  call would get.
\<close>

record attempt =
  imagesOk :: bool
  generation :: "modelOutput response"
  verifierPrimary :: "verdict list option response"
  verifierFallback :: "verdict list option response"

text \<open>
  Modelled from the spec: \<^verbatim>\<open>enforceScoreConsistency\<close> and \<^verbatim>\<open>determineStrictQuality\<close> are
  imported from \<^verbatim>\<open>./reportGenerator\<close>, which is not among the sources. The specification
  gives their contracts only: the first, given the issues and the scores, returns the
  scores (no dimension raised); the second is a pure function of the final issue list
  that returns a quality level. They are parameters of the pipeline, of these shapes.
\<close>

type_synonym enforcer = "issue list \<Rightarrow> scores \<Rightarrow> scores"

type_synonym grader = "issue list \<Rightarrow> string"

text \<open>
  The report built from the parsed response: \<^verbatim>\<open>parsedReport.screenshotId =
  payload.screenshotId\<close> and \<^verbatim>\<open>if (!parsedReport.issues) parsedReport.issues = []\<close>.
\<close>

definition normalizeReport :: "payload \<Rightarrow> modelOutput \<Rightarrow> report" where
  "normalizeReport p out =
     \<lparr>screenshotId = Some (payloadScreenshotId p),
      overall = out_overall out,
      issues = (case out_issues out of None \<Rightarrow> [] | Some l \<Rightarrow> l),
      summary = out_summary out\<rparr>"

definition runAnalysis :: "enforcer \<Rightarrow> grader \<Rightarrow> payload \<Rightarrow> attempt \<Rightarrow> error + report" where
  "runAnalysis enforceScoreConsistency determineStrictQuality p a =
     (if \<not> imagesOk a then Inl ImageProcessingFailed
      else
        (case generation a of
           CallThrows \<Rightarrow> Inl GenerateContentFailed
         | EmptyText \<Rightarrow> Inl EmptyResponse
         | InvalidJson \<Rightarrow> Inl InvalidJsonResponse
         | Parsed out \<Rightarrow>
             (let r0 = normalizeReport p out;
                  r1 = (if length (issues r0) > 0
                        then verifyIssues (verifierPrimary a) (verifierFallback a) r0
                        else r0);
                  r2 = sanitizeReport r1 (glossaryText p);
                  r3 = r2\<lparr>overall := (overall r2)\<lparr>scores :=
                          enforceScoreConsistency (issues r2) (scores (overall r2))\<rparr>\<rparr>;
                  strictLevel = determineStrictQuality (issues r3)
              in Inr (r3\<lparr>overall := (overall r3)\<lparr>qualityLevel := strictLevel\<rparr>\<rparr>))))"

text \<open>
  One call of the closure \<^verbatim>\<open>() => runAnalysis(NAME)\<close>, where \<open>modelId\<close> is what reading
  the name gives. When reading it throws, the closure throws before \<^verbatim>\<open>runAnalysis\<close> is
  entered and nothing is asked of the backend. Otherwise the environment's behaviour at
  this attempt is \<open>backend m k\<close>, for the model id \<open>m\<close> and the number \<open>k\<close> of attempts
  made before it.
\<close>

definition analysisCall ::
  "enforcer \<Rightarrow> grader \<Rightarrow> (string \<Rightarrow> nat \<Rightarrow> attempt) \<Rightarrow> payload \<Rightarrow> error + string \<Rightarrow> world
     \<Rightarrow> (error + report) \<times> world" where
  "analysisCall enf dsq backend p modelId w =
     (case modelId of
        Inl err \<Rightarrow> (Inl err, w @ [Attempt modelId])
      | Inr m \<Rightarrow>
          (runAnalysis enf dsq p (backend m (attemptsMade w)), w @ [Attempt modelId]))"

text \<open>
  \<^verbatim>\<open>callTranslationQaLLM\<close>; \<open>apiKey\<close> is \<^verbatim>\<open>process.env.API_KEY\<close>. The two closures
  read \<^verbatim>\<open>LLM_MODEL_ID\<close> and \<^verbatim>\<open>LLM_FALLBACK_MODEL_ID\<close> in the scope of the file.
\<close>

definition callTranslationQaLLM ::
  "enforcer \<Rightarrow> grader \<Rightarrow> (string \<Rightarrow> nat \<Rightarrow> attempt) \<Rightarrow> string option \<Rightarrow> payload \<Rightarrow> world
     \<Rightarrow> (error + report) \<times> world" where
  "callTranslationQaLLM enf dsq backend apiKey p w =
     (if apiKey = None \<or> apiKey = Some [] then (Inl ApiKeyMissing, w)
      else
        (case retryWithBackoff
                (analysisCall enf dsq backend p (llmServiceScope ''LLM_MODEL_ID'')) 2 1000 w of
           (Inr res, w1) \<Rightarrow> (Inr res, w1)
         | (Inl err, w1) \<Rightarrow>
             retryWithBackoff
               (analysisCall enf dsq backend p (llmServiceScope ''LLM_FALLBACK_MODEL_ID''))
               2 1000 w1))"

section \<open>The server pipeline: \<^verbatim>\<open>analyzeScreenshot\<close>\<close>

text \<open>
  \<^verbatim>\<open>functions/src/index.ts\<close> has its own \<^verbatim>\<open>verifyIssues\<close>: one call, no fallback model,
  and no \<^verbatim>\<open>refinedRationale\<close>. Its \<^verbatim>\<open>retryWithBackoff\<close> and \<^verbatim>\<open>sanitizeReport\<close> are the
  same text as the client's.
\<close>

definition mergeVerdictServer :: "(string \<rightharpoonup> verdict) \<Rightarrow> issue \<Rightarrow> issue option" where
  "mergeVerdictServer m i =
     (case m (issue_id i) of
        None \<Rightarrow> Some i
      | Some v \<Rightarrow>
          if \<not> isValid v then
            (if (issueCategory i = ''Style'' \<or> issueCategory i = ''Formatting'')
                \<and> \<not> isHallucination (reason v)
             then Some (i\<lparr>severity := ''Minor'',
                          description := ''[Review: Minor] '' @ description i\<rparr>)
             else None)
          else
            Some (case refinedSeverity v of
                    None \<Rightarrow> i
                  | Some s \<Rightarrow> if s = [] then i else i\<lparr>severity := s\<rparr>))"

definition verifyIssuesServer :: "verdict list option response \<Rightarrow> report \<Rightarrow> report" where
  "verifyIssuesServer primary initialReport =
     (case primary of
        CallThrows \<Rightarrow> initialReport
      | EmptyText \<Rightarrow> initialReport
      | InvalidJson \<Rightarrow> initialReport
      | Parsed verifiedIssues \<Rightarrow>
          initialReport\<lparr>issues :=
            List.map_filter (mergeVerdictServer (verifiedIssuesMap verifiedIssues))
              (issues initialReport)\<rparr>)"

text \<open>
  The function passed to \<^verbatim>\<open>retryWithBackoff\<close> in \<^verbatim>\<open>analyzeScreenshot\<close>: the images come
  with the payload, and every error is rethrown as an \<^verbatim>\<open>HttpsError\<close>.
\<close>

definition analyzeAttempt :: "payload \<Rightarrow> attempt \<Rightarrow> error + report" where
  "analyzeAttempt p a =
     (case generation a of
        CallThrows \<Rightarrow> Inl HttpsAnalysisFailed
      | EmptyText \<Rightarrow> Inl HttpsAnalysisFailed
      | InvalidJson \<Rightarrow> Inl HttpsAnalysisFailed
      | Parsed out \<Rightarrow>
          (let r0 = normalizeReport p out;
               r1 = (if length (issues r0) > 0
                     then verifyIssuesServer (verifierPrimary a) r0
                     else r0)
           in Inr (sanitizeReport r1 (glossaryText p))))"

definition analyzeScreenshot ::
  "(string \<Rightarrow> nat \<Rightarrow> attempt) \<Rightarrow> string option \<Rightarrow> payload \<Rightarrow> world
     \<Rightarrow> (error + report) \<times> world" where
  "analyzeScreenshot backend apiKey p w =
     (if apiKey = None \<or> apiKey = Some [] then (Inl HttpsApiKeyMissing, w)
      else
        retryWithBackoff
          (\<lambda>w0. (analyzeAttempt p (backend ''gemini-3.1-pro-preview'' (attemptsMade w0)),
                 w0 @ [Attempt (Inr ''gemini-3.1-pro-preview'')]))
          2 1000 w)"

section \<open>Sample data\<close>

text \<open>Concrete reports, used to run the definitions on.\<close>

definition sampleScores :: scores where
  "sampleScores =
     \<lparr>accuracy = 4, terminology = 3, layout = 4, grammar = 5, formatting = 5,
      localizationTone = 4\<rparr>"

definition sampleOverall :: overall where
  "sampleOverall =
     \<lparr>qualityLevel = ''Good'', scores = sampleScores, sceneDescription = ''settings page'',
      mainProblemsSummary = ''one term''\<rparr>"

definition sampleSummary :: summary where
  "sampleSummary =
     \<lparr>severeCount = 0, majorCount = 1, minorCount = 0, optimizationAdvice = ''none'',
      termAdvice = None\<rparr>"

definition sampleIssue :: "string \<Rightarrow> string \<Rightarrow> string option \<Rightarrow> string list \<Rightarrow> issue" where
  "sampleIssue iid category termId suggestions =
     \<lparr>issue_id = iid, location = ''Header'', issueCategory = category, severity = ''Major'',
      sourceText = Some ''Account'', targetText = Some ''Konto'',
      description = ''Wrong term'', suggestionRationale = ''Glossary'',
      suggestionsTarget = suggestions, glossarySource = Some ''glossary.xlsx'',
      glossaryTermId = termId\<rparr>"

definition sampleReport :: "issue list \<Rightarrow> report" where
  "sampleReport xs =
     \<lparr>screenshotId = Some ''shot-1'', overall = sampleOverall, issues = xs,
      summary = sampleSummary\<rparr>"

definition sampleVerdict :: "string \<Rightarrow> bool \<Rightarrow> string \<Rightarrow> verdict" where
  "sampleVerdict iid valid why =
     \<lparr>verdict_id = iid, isValid = valid, reason = Some why, refinedSeverity = None,
      refinedRationale = None\<rparr>"

text \<open>
  Stand-ins for the two functions of \<^verbatim>\<open>./reportGenerator\<close>, for the concrete runs below:
  the scores are kept as they are (none is raised), and the quality level depends on the
  issue list alone.
\<close>

definition sampleEnforce :: enforcer where
  "sampleEnforce xs sc = sc"

definition sampleGrade :: grader where
  "sampleGrade xs = (if xs = [] then ''Perfect'' else ''Poor'')"

definition samplePayload :: "string option \<Rightarrow> payload" where
  "samplePayload g =
     \<lparr>payloadScreenshotId = ''shot-1'', targetLanguage = ''de-DE'', reportLanguage = ''en'',
      glossaryText = g\<rparr>"

definition sampleOutput :: "issue list \<Rightarrow> modelOutput" where
  "sampleOutput xs =
     \<lparr>out_screenshotId = None, out_overall = sampleOverall, out_issues = Some xs,
      out_summary = sampleSummary\<rparr>"

definition sampleAttempt :: "modelOutput response \<Rightarrow> attempt" where
  "sampleAttempt g =
     \<lparr>imagesOk = True, generation = g, verifierPrimary = CallThrows,
      verifierFallback = CallThrows\<rparr>"

text \<open>
  Backends: what the environment answers at each attempt, per model id. The first one
  gives an empty body on the primary model and would answer on the fallback model.
\<close>

definition fallbackAnswers :: "string \<Rightarrow> nat \<Rightarrow> attempt" where
  "fallbackAnswers modelId k =
     (if modelId = LLM_FALLBACK_MODEL_ID then sampleAttempt (Parsed (sampleOutput []))
      else sampleAttempt EmptyText)"

definition emptySuggestions :: "string \<Rightarrow> nat \<Rightarrow> attempt" where
  "emptySuggestions modelId k =
     sampleAttempt (Parsed (sampleOutput [sampleIssue ''Issue-02'' ''Layout'' None []]))"

definition goodSuggestions :: "string \<Rightarrow> nat \<Rightarrow> attempt" where
  "goodSuggestions modelId k =
     sampleAttempt (Parsed (sampleOutput
       [sampleIssue ''Issue-02'' ''Layout'' None [''Resize container'']]))"

text \<open>
  A backend whose report carries a quality level that the grader does not give for the
  empty issue list (it is one character longer).
\<close>

definition labelled :: "grader \<Rightarrow> string \<Rightarrow> nat \<Rightarrow> attempt" where
  "labelled dsq modelId k =
     sampleAttempt (Parsed ((sampleOutput [])\<lparr>out_overall :=
        sampleOverall\<lparr>qualityLevel := CHR ''x'' # dsq []\<rparr>\<rparr>))"

section \<open>Properties of the hallucination guard\<close>

lemma sanitizeIssue_idem: "sanitizeIssue ids (sanitizeIssue ids i) = sanitizeIssue ids i"
  by (simp add: sanitizeIssue_def)

lemma sanitizeIssue_Terminology:
  "issueCategory (sanitizeIssue ids i) = ''Terminology'' \<longleftrightarrow>
     issueCategory i = ''Terminology'' \<and> isValidTermId ids (glossaryTermId i)"
  by (simp add: sanitizeIssue_def)

lemma sanitizeReport_issues:
  "g \<noteq> [] \<Longrightarrow>
     issues (sanitizeReport r (Some g)) = map (sanitizeIssue (matchAll g)) (issues r)"
  by (simp add: sanitizeReport_def Let_def)

lemma sanitizeReport_terminology5:
  assumes "g \<noteq> []"
    and "\<forall>i\<in>set (issues r). issueCategory i = ''Terminology'' \<longrightarrow>
           \<not> isValidTermId (matchAll g) (glossaryTermId i)"
  shows "terminology (scores (overall (sanitizeReport r (Some g)))) = 5"
proof -
  have "filter (\<lambda>i. issueCategory i = ''Terminology'')
          (map (sanitizeIssue (matchAll g)) (issues r)) = []"
    using assms(2) by (auto simp: filter_empty_conv sanitizeIssue_Terminology)
  with assms(1) show ?thesis by (simp add: sanitizeReport_def Let_def)
qed

lemma sanitizeReport_Some:
  "g \<noteq> [] \<Longrightarrow> sanitizeReport r (Some g) =
     (if filter (\<lambda>i. issueCategory i = ''Terminology'')
           (map (sanitizeIssue (matchAll g)) (issues r)) = []
      then r\<lparr>issues := map (sanitizeIssue (matchAll g)) (issues r),
             overall := (overall r)\<lparr>scores := (scores (overall r))\<lparr>terminology := 5\<rparr>\<rparr>\<rparr>
      else r\<lparr>issues := map (sanitizeIssue (matchAll g)) (issues r)\<rparr>)"
  by (simp add: sanitizeReport_def Let_def)

text \<open>\<^verbatim>\<open>includes\<close>, as modelled, is the library's relation of contiguous sublists.\<close>

lemma str_includes_sublist: "str_includes s kw \<longleftrightarrow> sublist kw s"
  by (induction s) (simp_all add: sublist_Cons_right)

text \<open>
  The scan for tags finds exactly the well-formed tags that occur in the text
  (\<open>set_matchAll\<close>), so the code's check of a term id is the specification's
  (\<open>isValidTermId_tagPresent\<close>).
\<close>

lemma not_digit: "\<not> isDigit CHR '']''" "\<not> isDigit CHR ''[''"
  by (simp_all add: isDigit_def)

lemma takeWhile_digits:
  "list_all isDigit ds \<Longrightarrow> takeWhile isDigit (ds @ CHR '']'' # xs) = ds"
  by (induction ds) (simp_all add: not_digit)

lemma dropWhile_digits:
  "list_all isDigit ds \<Longrightarrow> dropWhile isDigit (ds @ CHR '']'' # xs) = CHR '']'' # xs"
  by (induction ds) (simp_all add: not_digit)

text \<open>A match at the head of the text is a tag, and a tag at the head is matched.\<close>

lemma matchTagAt_Some_iff:
  "matchTagAt s = Some (m, rest) \<longleftrightarrow>
     (\<exists>ds. ds \<noteq> [] \<and> list_all isDigit ds \<and> m = ''[ID:TERM-'' @ ds @ '']'' \<and> s = m @ rest)"
proof
  assume a: "matchTagAt s = Some (m, rest)"
  then have p: "prefix ''[ID:TERM-'' s" by (simp add: matchTagAt_def split: if_splits)
  then obtain t where s: "s = ''[ID:TERM-'' @ t" by (auto simp: prefix_def)
  then have d: "drop 9 s = t" by simp
  from a p d have r: "dropWhile isDigit t = CHR '']'' # rest"
    and ne: "takeWhile isDigit t \<noteq> []"
    and m: "m = ''[ID:TERM-'' @ takeWhile isDigit t @ '']''"
    by (auto simp: matchTagAt_def Let_def split: list.splits if_splits)
  have "t = takeWhile isDigit t @ dropWhile isDigit t" by simp
  with r have t: "t = takeWhile isDigit t @ CHR '']'' # rest" by simp
  have "list_all isDigit (takeWhile isDigit t)"
    by (simp add: list_all_iff) (meson set_takeWhileD)
  moreover have "s = m @ rest" unfolding m s using t by simp
  ultimately show "\<exists>ds. ds \<noteq> [] \<and> list_all isDigit ds \<and> m = ''[ID:TERM-'' @ ds @ '']'' \<and> s = m @ rest"
    using ne m by blast
next
  assume "\<exists>ds. ds \<noteq> [] \<and> list_all isDigit ds \<and> m = ''[ID:TERM-'' @ ds @ '']'' \<and> s = m @ rest"
  then obtain ds where ds: "ds \<noteq> []" "list_all isDigit ds"
    and m: "m = ''[ID:TERM-'' @ ds @ '']''" and s: "s = m @ rest" by blast
  have s': "s = ''[ID:TERM-'' @ (ds @ CHR '']'' # rest)" unfolding s m by simp
  have p: "prefix ''[ID:TERM-'' s" unfolding s' by (rule prefixI) (rule refl)
  have d: "drop 9 s = ds @ CHR '']'' # rest" unfolding s' by simp
  show "matchTagAt s = Some (m, rest)"
    unfolding matchTagAt_def d Let_def
    using p ds by (simp add: takeWhile_digits dropWhile_digits m)
qed

text \<open>Inside a tag the opening bracket occurs at the start only.\<close>

lemma bracket_at_start:
  assumes "list_all isDigit ds" and "''[ID:TERM-'' @ ds @ '']'' = ps @ CHR ''['' # xs"
  shows "ps = []"
proof (cases ps)
  case Nil
  then show ?thesis .
next
  case (Cons p ps1)
  with assms(2) have "''ID:TERM-'' @ ds @ '']'' = ps1 @ CHR ''['' # xs" by simp
  then have "CHR ''['' \<in> set (''ID:TERM-'' @ ds @ '']'')" by simp
  then have "CHR ''['' \<in> set ds" by simp
  with assms(1) have "isDigit CHR ''[''" by (simp add: list_all_iff)
  then show ?thesis by (simp add: not_digit)
qed

text \<open>Two tags that start at the same place are the same tag.\<close>

lemma tag_unique:
  assumes "list_all isDigit ds" and "list_all isDigit ds1"
    and "(''[ID:TERM-'' @ ds @ '']'') @ xs = (''[ID:TERM-'' @ ds1 @ '']'') @ ys"
  shows "ds = ds1 \<and> xs = ys"
proof -
  from assms(3) have eq: "ds @ CHR '']'' # xs = ds1 @ CHR '']'' # ys" by simp
  then have "takeWhile isDigit (ds @ CHR '']'' # xs) = takeWhile isDigit (ds1 @ CHR '']'' # ys)"
    by simp
  with assms(1,2) have "ds = ds1" by (simp add: takeWhile_digits)
  with eq show ?thesis by simp
qed

lemma tag_in_tag_rest:
  assumes ds: "list_all isDigit ds" and ds1: "list_all isDigit ds1"
    and m: "m = ''[ID:TERM-'' @ ds @ '']''" and t: "t = ''[ID:TERM-'' @ ds1 @ '']''"
    and sub: "sublist t (m @ rest)"
  shows "t = m \<or> sublist t rest"
proof -
  have t_hd: "t = CHR ''['' # ''ID:TERM-'' @ ds1 @ '']''" unfolding t by simp
  from sub consider (inside) "sublist t m" | (after) "sublist t rest"
    | (across) t1 t2 where "t = t1 @ t2" "suffix t1 m" "prefix t2 rest"
    unfolding sublist_append by blast
  then show ?thesis
  proof cases
    case inside
    then obtain ps ss where split: "m = ps @ t @ ss" by (auto simp: sublist_def)
    then have "''[ID:TERM-'' @ ds @ '']'' = ps @ CHR ''['' # (''ID:TERM-'' @ ds1 @ '']'' @ ss)"
      unfolding m t by simp
    with ds have "ps = []" by (rule bracket_at_start)
    with split have "m @ [] = t @ ss" by simp
    then have "ds = ds1 \<and> [] = ss" unfolding m t by (rule tag_unique [OF ds ds1])
    then show ?thesis unfolding m t by simp
  next
    case after
    then show ?thesis by simp
  next
    case across
    show ?thesis
    proof (cases t1)
      case Nil
      with across have "prefix t rest" by simp
      then show ?thesis by (simp add: prefix_imp_sublist)
    next
      case (Cons c t1')
      with across(1) t_hd have c: "c = CHR ''[''" by simp
      from across(2) obtain ps where "m = ps @ t1" by (auto simp: suffix_def)
      with Cons c have "''[ID:TERM-'' @ ds @ '']'' = ps @ CHR ''['' # t1'" unfolding m by simp
      with ds have "ps = []" by (rule bracket_at_start)
      with \<open>m = ps @ t1\<close> across(1) have "t @ [] = m @ t2" by simp
      then have "ds1 = ds \<and> [] = t2" unfolding m t by (rule tag_unique [OF ds1 ds])
      then show ?thesis unfolding m t by simp
    qed
  qed
qed

lemma matchAll_sound:
  "m \<in> set (matchAll s) \<Longrightarrow>
     \<exists>ds. ds \<noteq> [] \<and> list_all isDigit ds \<and> m = ''[ID:TERM-'' @ ds @ '']'' \<and> sublist m s"
proof (induction s rule: matchAll.induct)
  case 1
  then show ?case by (simp add: matchAll.simps)
next
  case (2 c cs)
  show ?case
  proof (cases "matchTagAt (c # cs)")
    case None
    with "2.prems" have "m \<in> set (matchAll cs)" by (simp add: matchAll.simps)
    from "2.IH"(1) [OF None this] show ?thesis by (auto simp: sublist_Cons_right)
  next
    case (Some x)
    obtain m1 rest where x: "x = (m1, rest)" by (cases x)
    with Some have hd: "matchTagAt (c # cs) = Some (m1, rest)" by simp
    then obtain ds where ds: "ds \<noteq> []" "list_all isDigit ds" "m1 = ''[ID:TERM-'' @ ds @ '']''"
      and s: "c # cs = m1 @ rest" unfolding matchTagAt_Some_iff by blast
    from "2.prems" hd have "m = m1 \<or> m \<in> set (matchAll rest)" by (simp add: matchAll.simps)
    then show ?thesis
    proof
      assume "m = m1"
      with ds s show ?thesis by (metis sublist_append_rightI)
    next
      assume "m \<in> set (matchAll rest)"
      from "2.IH"(2) [OF Some x [symmetric] this]
      obtain ds1 where "ds1 \<noteq> []" "list_all isDigit ds1" "m = ''[ID:TERM-'' @ ds1 @ '']''"
        "sublist m rest" by blast
      moreover from \<open>sublist m rest\<close> have "sublist m (c # cs)"
        unfolding s by (simp add: sublist_append)
      ultimately show ?thesis by blast
    qed
  qed
qed

lemma matchAll_complete:
  assumes "ds \<noteq> []" and "list_all isDigit ds" and "t = ''[ID:TERM-'' @ ds @ '']''"
  shows "sublist t s \<Longrightarrow> t \<in> set (matchAll s)"
proof (induction s rule: matchAll.induct)
  case 1
  with assms(3) show ?case by simp
next
  case (2 c cs)
  show ?case
  proof (cases "matchTagAt (c # cs)")
    case None
    have "\<not> prefix t (c # cs)"
    proof
      assume "prefix t (c # cs)"
      then obtain rest where "c # cs = t @ rest" by (auto simp: prefix_def)
      with assms have "matchTagAt (c # cs) = Some (t, rest)"
        unfolding matchTagAt_Some_iff by blast
      with None show False by simp
    qed
    with "2.prems" have "sublist t cs" by (simp add: sublist_Cons_right)
    from "2.IH"(1) [OF None this] None show ?thesis by (simp add: matchAll.simps)
  next
    case (Some x)
    obtain m1 rest where x: "x = (m1, rest)" by (cases x)
    with Some have hd: "matchTagAt (c # cs) = Some (m1, rest)" by simp
    then obtain ds1 where ds1: "list_all isDigit ds1" "m1 = ''[ID:TERM-'' @ ds1 @ '']''"
      and s: "c # cs = m1 @ rest" unfolding matchTagAt_Some_iff by blast
    from "2.prems" have "sublist t (m1 @ rest)" unfolding s .
    from tag_in_tag_rest [OF ds1(1) assms(2) ds1(2) assms(3) this]
    show ?thesis
    proof
      assume "t = m1"
      with hd show ?thesis by (simp add: matchAll.simps)
    next
      assume "sublist t rest"
      from "2.IH"(2) [OF Some x [symmetric] this] hd show ?thesis
        by (simp add: matchAll.simps)
    qed
  qed
qed

lemma set_matchAll:
  "set (matchAll g) =
     {t. \<exists>ds. ds \<noteq> [] \<and> list_all isDigit ds \<and> t = ''[ID:TERM-'' @ ds @ '']'' \<and> sublist t g}"
  using matchAll_sound matchAll_complete by blast

lemma isValidTermId_tagPresent:
  "isValidTermId (matchAll g) termIdRaw \<longleftrightarrow> (\<exists>t. termIdRaw = Some t \<and> tagPresent g t)"
proof (cases termIdRaw)
  case None
  then show ?thesis by (simp add: isValidTermId_def formattedId_def)
next
  case (Some t)
  have "(''[ID:'' @ t @ '']'' \<in> set (matchAll g)) \<longleftrightarrow> tagPresent g t"
  proof
    assume "''[ID:'' @ t @ '']'' \<in> set (matchAll g)"
    then obtain ds where ds: "ds \<noteq> []" "list_all isDigit ds"
      and eq: "''[ID:'' @ t @ '']'' = ''[ID:TERM-'' @ ds @ '']''"
      and sub: "sublist (''[ID:'' @ t @ '']'') g" unfolding set_matchAll by blast
    from eq have "t = ''TERM-'' @ ds" by simp
    with ds sub show "tagPresent g t" by (simp add: tagPresent_def)
  next
    assume a: "tagPresent g t"
    then obtain ds where t: "t = ''TERM-'' @ ds" by (auto simp: tagPresent_def prefix_def)
    with a have "ds \<noteq> []" "list_all isDigit ds" "sublist (''[ID:TERM-'' @ ds @ '']'') g"
      by (simp_all add: tagPresent_def)
    then show "''[ID:'' @ t @ '']'' \<in> set (matchAll g)"
      unfolding set_matchAll t by auto
  qed
  moreover have "tagPresent g t \<Longrightarrow> t \<noteq> []" by (auto simp: tagPresent_def)
  ultimately show ?thesis using Some
    by (auto simp: isValidTermId_def formattedId_def)
qed

text \<open>
  C9. With the glossary text undefined or the empty string, \<^verbatim>\<open>sanitizeReport\<close> returns
  at once and the report is unchanged, whatever its issues and scores are: no Terminology
  issue is downgraded and the terminology score is not set to 5.
\<close>

theorem sanitizeReport_no_glossary:
  "sanitizeReport r None = r \<and> sanitizeReport r (Some []) = r"
  by (simp add: sanitizeReport_def)

text \<open>
  C8. Sanitization is idempotent: for every report and every glossary text, sanitizing
  the sanitized report again gives the same report, equal in every field.
\<close>

theorem sanitizeReport_idempotent:
  "sanitizeReport (sanitizeReport r g) g = sanitizeReport r g"
proof (cases "g = None \<or> g = Some []")
  case True
  then show ?thesis by (auto simp: sanitizeReport_def)
next
  case False
  then obtain t where g: "g = Some t" and t: "t \<noteq> []" by (cases g) auto
  define f where "f = sanitizeIssue (matchAll t)"
  define is1 where "is1 = map f (issues r)"
  have again: "map f is1 = is1"
    by (simp add: is1_def f_def sanitizeIssue_idem)
  show ?thesis
  proof (cases "filter (\<lambda>i. issueCategory i = ''Terminology'') is1 = []")
    case True
    define r2 where "r2 = r\<lparr>issues := is1,
      overall := (overall r)\<lparr>scores := (scores (overall r))\<lparr>terminology := 5\<rparr>\<rparr>\<rparr>"
    have once: "sanitizeReport r (Some t) = r2"
      using True by (simp add: sanitizeReport_Some [OF t] r2_def is1_def f_def)
    have "issues r2 = is1" by (simp add: r2_def)
    with again True have "sanitizeReport r2 (Some t) = r2\<lparr>issues := is1,
      overall := (overall r2)\<lparr>scores := (scores (overall r2))\<lparr>terminology := 5\<rparr>\<rparr>\<rparr>"
      by (simp add: sanitizeReport_Some [OF t] f_def [symmetric])
    also have "\<dots> = r2" by (simp add: r2_def)
    finally show ?thesis by (simp add: g once)
  next
    case False
    define r2 where "r2 = r\<lparr>issues := is1\<rparr>"
    have once: "sanitizeReport r (Some t) = r2"
      using False by (simp add: sanitizeReport_Some [OF t] r2_def is1_def f_def)
    have "issues r2 = is1" by (simp add: r2_def)
    with again False have "sanitizeReport r2 (Some t) = r2\<lparr>issues := is1\<rparr>"
      by (simp add: sanitizeReport_Some [OF t] f_def [symmetric])
    also have "\<dots> = r2" by (simp add: r2_def)
    finally show ?thesis by (simp add: g once)
  qed
qed

text \<open>
  C2, as stated, fails on the empty glossary text: no tag is present in it, so the only
  Terminology issue of the report below is ungrounded, yet \<^verbatim>\<open>sanitizeReport\<close> returns
  before looking at the issues. The issue stays a Terminology issue and the terminology
  score stays 3.
\<close>

theorem sanitizeReport_empty_glossary_counterexample:
  "issueCategory (sampleIssue ''Issue-01'' ''Terminology'' (Some ''TERM-999'') [''Konto''])
     = ''Terminology''
   \<and> glossaryTermId (sampleIssue ''Issue-01'' ''Terminology'' (Some ''TERM-999'') [''Konto''])
     = Some ''TERM-999''
   \<and> \<not> tagPresent [] ''TERM-999''
   \<and> issues (sanitizeReport
        (sampleReport [sampleIssue ''Issue-01'' ''Terminology'' (Some ''TERM-999'') [''Konto'']])
        (Some []))
     = [sampleIssue ''Issue-01'' ''Terminology'' (Some ''TERM-999'') [''Konto'']]
   \<and> terminology (scores (overall (sanitizeReport
        (sampleReport [sampleIssue ''Issue-01'' ''Terminology'' (Some ''TERM-999'') [''Konto'']])
        (Some [])))) = 3"
  by (simp add: sanitizeReport_def tagPresent_def sampleIssue_def
      sampleReport_def sampleOverall_def sampleScores_def)

text \<open>
  C2, amended. For every report and every non-empty glossary text in which no
  Terminology issue's \<^verbatim>\<open>glossaryTermId\<close> matches a well-formed tag \<^verbatim>\<open>[ID:TERM-nnn]\<close> that
  is present in the glossary text: after sanitization the terminology score is 5, the issue list has the same
  length, and each issue that was a Terminology issue has category Style, severity
  Minor, its description between the auto-downgrade marker and the reason, no
  \<^verbatim>\<open>glossaryTermId\<close>, and the downgrade sentinel as \<^verbatim>\<open>glossarySource\<close>.
\<close>

theorem sanitizeReport_ungrounded:
  assumes "g \<noteq> []"
    and "\<forall>i\<in>set (issues r). issueCategory i = ''Terminology'' \<longrightarrow>
           (\<forall>t. glossaryTermId i = Some t \<longrightarrow> \<not> tagPresent g t)"
  shows "terminology (scores (overall (sanitizeReport r (Some g)))) = 5
    \<and> length (issues (sanitizeReport r (Some g))) = length (issues r)
    \<and> (\<forall>k<length (issues r). issueCategory (issues r ! k) = ''Terminology'' \<longrightarrow>
          issues (sanitizeReport r (Some g)) ! k =
            (issues r ! k)\<lparr>issueCategory := ''Style'',
               severity := ''Minor'',
               description := ''[Auto-Downgraded] '' @ description (issues r ! k)
                              @ '' (Reason: Terminology ID not found in glossary)'',
               glossaryTermId := None,
               glossarySource := Some ''LLM Knowledge (Downgraded)''\<rparr>)"
proof -
  from assms(2)
  have invalid: "\<forall>i\<in>set (issues r). issueCategory i = ''Terminology'' \<longrightarrow>
           \<not> isValidTermId (matchAll g) (glossaryTermId i)"
    by (simp add: isValidTermId_tagPresent)
  show ?thesis
  proof (intro conjI allI impI)
    show "terminology (scores (overall (sanitizeReport r (Some g)))) = 5"
      using assms(1) invalid by (rule sanitizeReport_terminology5)
  next
    show "length (issues (sanitizeReport r (Some g))) = length (issues r)"
      using assms(1) by (simp add: sanitizeReport_issues)
  next
    fix k
    assume k: "k < length (issues r)" and t: "issueCategory (issues r ! k) = ''Terminology''"
    from k have "issues r ! k \<in> set (issues r)" by simp
    with invalid t have "\<not> isValidTermId (matchAll g) (glossaryTermId (issues r ! k))" by blast
    with t k assms(1) show "issues (sanitizeReport r (Some g)) ! k =
            (issues r ! k)\<lparr>issueCategory := ''Style'',
               severity := ''Minor'',
               description := ''[Auto-Downgraded] '' @ description (issues r ! k)
                              @ '' (Reason: Terminology ID not found in glossary)'',
               glossaryTermId := None,
               glossarySource := Some ''LLM Knowledge (Downgraded)''\<rparr>"
      by (simp add: sanitizeReport_issues sanitizeIssue_def)
  qed
qed

lemma absent_999: "\<not> tagPresent ''Account = Konto [ID:TERM-001]'' ''TERM-999''"
  by code_simp

theorem sanitizeReport_ungrounded_witness:
  "terminology (scores (overall (sanitizeReport
       (sampleReport [sampleIssue ''Issue-01'' ''Terminology'' (Some ''TERM-999'') [''Konto''],
                      sampleIssue ''Issue-02'' ''Layout'' None [''Resize container'']])
       (Some ''Account = Konto [ID:TERM-001]'')))) = 5
   \<and> issues (sanitizeReport
       (sampleReport [sampleIssue ''Issue-01'' ''Terminology'' (Some ''TERM-999'') [''Konto''],
                      sampleIssue ''Issue-02'' ''Layout'' None [''Resize container'']])
       (Some ''Account = Konto [ID:TERM-001]'')) ! 0
     = \<lparr>issue_id = ''Issue-01'', location = ''Header'', issueCategory = ''Style'',
        severity = ''Minor'', sourceText = Some ''Account'', targetText = Some ''Konto'',
        description = ''[Auto-Downgraded] Wrong term (Reason: Terminology ID not found in glossary)'',
        suggestionRationale = ''Glossary'', suggestionsTarget = [''Konto''],
        glossarySource = Some ''LLM Knowledge (Downgraded)'', glossaryTermId = None\<rparr>"
proof -
  let ?r = "sampleReport [sampleIssue ''Issue-01'' ''Terminology'' (Some ''TERM-999'') [''Konto''],
                      sampleIssue ''Issue-02'' ''Layout'' None [''Resize container'']]"
  let ?g = "''Account = Konto [ID:TERM-001]''"
  have h1: "?g \<noteq> []" by simp
  have h2: "\<forall>i\<in>set (issues ?r). issueCategory i = ''Terminology'' \<longrightarrow>
           (\<forall>t. glossaryTermId i = Some t \<longrightarrow> \<not> tagPresent ?g t)"
    using absent_999 by (simp add: sampleReport_def sampleIssue_def)
  have k: "0 < length (issues ?r)" and t: "issueCategory (issues ?r ! 0) = ''Terminology''"
    by (simp_all add: sampleReport_def sampleIssue_def)
  note inst = sanitizeReport_ungrounded [OF h1 h2]
  from inst have a: "terminology (scores (overall (sanitizeReport ?r (Some ?g)))) = 5"
    by (rule conjunct1)
  have b: "issues (sanitizeReport ?r (Some ?g)) ! 0 =
      (issues ?r ! 0)\<lparr>issueCategory := ''Style'',
               severity := ''Minor'',
               description := ''[Auto-Downgraded] '' @ description (issues ?r ! 0)
                              @ '' (Reason: Terminology ID not found in glossary)'',
               glossaryTermId := None,
               glossarySource := Some ''LLM Knowledge (Downgraded)''\<rparr>"
    by (rule inst [THEN conjunct2, THEN conjunct2, rule_format, OF k t])
  have c: "(issues ?r ! 0)\<lparr>issueCategory := ''Style'',
               severity := ''Minor'',
               description := ''[Auto-Downgraded] '' @ description (issues ?r ! 0)
                              @ '' (Reason: Terminology ID not found in glossary)'',
               glossaryTermId := None,
               glossarySource := Some ''LLM Knowledge (Downgraded)''\<rparr>
     = \<lparr>issue_id = ''Issue-01'', location = ''Header'', issueCategory = ''Style'',
        severity = ''Minor'', sourceText = Some ''Account'', targetText = Some ''Konto'',
        description = ''[Auto-Downgraded] Wrong term (Reason: Terminology ID not found in glossary)'',
        suggestionRationale = ''Glossary'', suggestionsTarget = [''Konto''],
        glossarySource = Some ''LLM Knowledge (Downgraded)'', glossaryTermId = None\<rparr>"
    by (simp add: sampleReport_def sampleIssue_def)
  show ?thesis by (rule conjI [OF a trans [OF b c]])
qed

section \<open>Properties of the verifier merge\<close>

lemma mergeVerdict_keeps_id:
  "mergeVerdict m j = Some i \<Longrightarrow> issue_id i = issue_id j \<and> issueCategory i = issueCategory j"
  by (auto simp: mergeVerdict_def Let_def split: option.splits if_splits)

lemma mergeVerdict_invalid:
  assumes "mergeVerdict m j = Some i" and "m (issue_id i) = Some v" and "\<not> isValid v"
  shows "issueCategory i = ''Style'' \<or> issueCategory i = ''Formatting''"
proof -
  from assms(1) have "issue_id i = issue_id j" by (simp add: mergeVerdict_keeps_id)
  with assms(2) have "m (issue_id j) = Some v" by simp
  with assms(1,3) have "issueCategory j = ''Style'' \<or> issueCategory j = ''Formatting''"
    by (auto simp: mergeVerdict_def split: if_splits)
  with assms(1) show ?thesis by (simp add: mergeVerdict_keeps_id)
qed

lemma set_map_filter: "set (List.map_filter f xs) = {y. \<exists>x\<in>set xs. f x = Some y}"
  by (induction xs) (auto simp: List.map_filter_simps split: option.splits)

lemma verifyIssues_Parsed:
  "issues (verifyIssues (Parsed vs) fallback r) =
     List.map_filter (mergeVerdict (verifiedIssuesMap vs)) (issues r)"
  by (simp add: verifyIssues_def)

lemma verifyIssues_primary_throws: "verifyIssues CallThrows fallback r = r"
  by (simp add: verifyIssues_def llmServiceScope_def)

text \<open>
  The verdict that the map holds for an id is the last entry of \<^verbatim>\<open>verifiedIssues\<close> that
  carries the id: \<^verbatim>\<open>Map.set\<close> overwrites the earlier ones, and entries with other ids
  do not touch it.
\<close>

lemma fold_set_other:
  "k \<notin> verdict_id ` set vs \<Longrightarrow> fold (\<lambda>v m. m(verdict_id v \<mapsto> v)) vs m k = m k"
  by (induction vs arbitrary: m) auto

lemma verifiedIssuesMap_last:
  assumes "\<forall>u\<in>set later. verdict_id u \<noteq> verdict_id v"
  shows "verifiedIssuesMap (Some (earlier @ v # later)) (verdict_id v) = Some v"
proof -
  from assms have "verdict_id v \<notin> verdict_id ` set later" by auto
  then show ?thesis by (simp add: verifiedIssuesMap_def fold_set_other)
qed

text \<open>
  C3. When the verifier's response parses, take an issue of the report with category
  Style or Formatting, and its verdict: the last entry of \<^verbatim>\<open>verifiedIssues\<close> that carries
  the issue's id (the only one when the ids are distinct). If the verdict has
  \<^verbatim>\<open>isValid = false\<close> and its reason, lower-cased, contains none of the phrases
  \<^verbatim>\<open>hallucination\<close>, \<^verbatim>\<open>not visible\<close>, \<^verbatim>\<open>does not exist\<close>, the issue is kept in the report
  with severity Minor and its description prefixed with \<^verbatim>\<open>[Review: Minor] \<close>.
\<close>

theorem verifier_rescues_style_formatting:
  assumes "primary = Parsed (Some (earlier @ v # later))"
    and "verdict_id v = issue_id i"
    and "\<forall>u\<in>set later. verdict_id u \<noteq> issue_id i"
    and "i \<in> set (issues r)"
    and "issueCategory i = ''Style'' \<or> issueCategory i = ''Formatting''"
    and "\<not> isValid v"
    and "\<not> str_includes (toLowerCase (case reason v of None \<Rightarrow> [] | Some s \<Rightarrow> s))
             ''hallucination''"
    and "\<not> str_includes (toLowerCase (case reason v of None \<Rightarrow> [] | Some s \<Rightarrow> s))
             ''not visible''"
    and "\<not> str_includes (toLowerCase (case reason v of None \<Rightarrow> [] | Some s \<Rightarrow> s))
             ''does not exist''"
  shows "i\<lparr>severity := ''Minor'', description := ''[Review: Minor] '' @ description i\<rparr>
           \<in> set (issues (verifyIssues primary fallback r))"
proof -
  from assms(2,3) have "\<forall>u\<in>set later. verdict_id u \<noteq> verdict_id v" by simp
  then have "verifiedIssuesMap (Some (earlier @ v # later)) (verdict_id v) = Some v"
    by (rule verifiedIssuesMap_last)
  with assms(2)
  have look: "verifiedIssuesMap (Some (earlier @ v # later)) (issue_id i) = Some v" by simp
  have "\<not> isHallucination (reason v)"
    using assms(7-9) by (simp add: isHallucination_def Let_def)
  with assms(5,6) look
  have "mergeVerdict (verifiedIssuesMap (Some (earlier @ v # later))) i =
      Some (i\<lparr>severity := ''Minor'', description := ''[Review: Minor] '' @ description i\<rparr>)"
    by (simp add: mergeVerdict_def)
  with assms(4) show ?thesis
    unfolding assms(1) verifyIssues_Parsed set_map_filter by blast
qed

lemma lower_subjective:
  "toLowerCase ''Subjective Preference'' = ''subjective preference''"
  by code_simp

theorem verifier_rescues_style_formatting_witness:
  "(sampleIssue ''Issue-03'' ''Style'' None [''Sie''])
      \<lparr>severity := ''Minor'', description := ''[Review: Minor] Wrong term''\<rparr>
    \<in> set (issues (verifyIssues
          (Parsed (Some [sampleVerdict ''Issue-03'' True ''Real'',
                         sampleVerdict ''Issue-01'' True ''Real'',
                         sampleVerdict ''Issue-03'' False ''Subjective Preference'',
                         sampleVerdict ''Issue-02'' False ''The button does not exist'']))
          CallThrows
          (sampleReport [sampleIssue ''Issue-01'' ''Layout'' None [''Abbr.''],
                         sampleIssue ''Issue-02'' ''Layout'' None [''Resize container''],
                         sampleIssue ''Issue-03'' ''Style'' None [''Sie'']])))"
proof -
  let ?i = "sampleIssue ''Issue-03'' ''Style'' None [''Sie'']"
  let ?v = "sampleVerdict ''Issue-03'' False ''Subjective Preference''"
  let ?earlier = "[sampleVerdict ''Issue-03'' True ''Real'', sampleVerdict ''Issue-01'' True ''Real'']"
  let ?later = "[sampleVerdict ''Issue-02'' False ''The button does not exist'']"
  let ?r = "sampleReport [sampleIssue ''Issue-01'' ''Layout'' None [''Abbr.''],
                         sampleIssue ''Issue-02'' ''Layout'' None [''Resize container''], ?i]"
  have reason: "(case reason ?v of None \<Rightarrow> [] | Some s \<Rightarrow> s) = ''Subjective Preference''"
    by (simp add: sampleVerdict_def)
  have h1: "Parsed (Some [sampleVerdict ''Issue-03'' True ''Real'',
                         sampleVerdict ''Issue-01'' True ''Real'', ?v,
                         sampleVerdict ''Issue-02'' False ''The button does not exist''])
      = Parsed (Some (?earlier @ ?v # ?later))" by simp
  have h2: "verdict_id ?v = issue_id ?i" by (simp add: sampleIssue_def sampleVerdict_def)
  have h3: "\<forall>u\<in>set ?later. verdict_id u \<noteq> issue_id ?i"
    by (simp add: sampleIssue_def sampleVerdict_def)
  have h4: "?i \<in> set (issues ?r)" by (simp add: sampleReport_def)
  have h5: "issueCategory ?i = ''Style'' \<or> issueCategory ?i = ''Formatting''"
    by (simp add: sampleIssue_def)
  have h6: "\<not> isValid ?v" by (simp add: sampleVerdict_def)
  have h7: "\<not> str_includes (toLowerCase (case reason ?v of None \<Rightarrow> [] | Some s \<Rightarrow> s))
             ''hallucination''"
    unfolding reason lower_subjective by code_simp
  have h8: "\<not> str_includes (toLowerCase (case reason ?v of None \<Rightarrow> [] | Some s \<Rightarrow> s))
             ''not visible''"
    unfolding reason lower_subjective by code_simp
  have h9: "\<not> str_includes (toLowerCase (case reason ?v of None \<Rightarrow> [] | Some s \<Rightarrow> s))
             ''does not exist''"
    unfolding reason lower_subjective by code_simp
  have d: "description ?i = ''Wrong term''" by (simp add: sampleIssue_def)
  from verifier_rescues_style_formatting [OF h1 h2 h3 h4 h5 h6 h7 h8 h9]
  show ?thesis unfolding d by simp
qed

text \<open>
  C4. When the verifier's response parses, an issue with category Layout, Terminology,
  Mistranslation or Other whose verdict (the last entry of \<^verbatim>\<open>verifiedIssues\<close> that
  carries the issue's id) has \<^verbatim>\<open>isValid = false\<close> is not in the issue list that the
  merge produces.
\<close>

theorem verifier_drops_invalid:
  assumes "primary = Parsed (Some (earlier @ v # later))"
    and "verdict_id v = issue_id i"
    and "\<forall>u\<in>set later. verdict_id u \<noteq> issue_id i"
    and "issueCategory i \<in> {''Layout'', ''Terminology'', ''Mistranslation'', ''Other''}"
    and "\<not> isValid v"
  shows "i \<notin> set (issues (verifyIssues primary fallback r))"
proof
  assume "i \<in> set (issues (verifyIssues primary fallback r))"
  then obtain j where j: "mergeVerdict (verifiedIssuesMap (Some (earlier @ v # later))) j = Some i"
    unfolding assms(1) verifyIssues_Parsed set_map_filter by blast
  from assms(2,3) have "\<forall>u\<in>set later. verdict_id u \<noteq> verdict_id v" by simp
  then have "verifiedIssuesMap (Some (earlier @ v # later)) (verdict_id v) = Some v"
    by (rule verifiedIssuesMap_last)
  with assms(2)
  have look: "verifiedIssuesMap (Some (earlier @ v # later)) (issue_id i) = Some v" by simp
  from mergeVerdict_invalid [OF j look assms(5)] assms(4) show False by auto
qed

theorem verifier_drops_invalid_witness:
  "sampleIssue ''Issue-02'' ''Layout'' None [''Resize container'']
    \<notin> set (issues (verifyIssues
          (Parsed (Some [sampleVerdict ''Issue-01'' True ''Real'',
                         sampleVerdict ''Issue-02'' False ''The button does not exist'',
                         sampleVerdict ''Issue-03'' False ''Subjective Preference'']))
          CallThrows
          (sampleReport [sampleIssue ''Issue-01'' ''Layout'' None [''Abbr.''],
                         sampleIssue ''Issue-02'' ''Layout'' None [''Resize container''],
                         sampleIssue ''Issue-03'' ''Style'' None [''Sie'']])))"
proof -
  let ?i = "sampleIssue ''Issue-02'' ''Layout'' None [''Resize container'']"
  let ?v = "sampleVerdict ''Issue-02'' False ''The button does not exist''"
  let ?earlier = "[sampleVerdict ''Issue-01'' True ''Real'']"
  let ?later = "[sampleVerdict ''Issue-03'' False ''Subjective Preference'']"
  have h1: "Parsed (Some [sampleVerdict ''Issue-01'' True ''Real'', ?v,
                         sampleVerdict ''Issue-03'' False ''Subjective Preference''])
      = Parsed (Some (?earlier @ ?v # ?later))" by simp
  have h2: "verdict_id ?v = issue_id ?i" by (simp add: sampleIssue_def sampleVerdict_def)
  have h3: "\<forall>u\<in>set ?later. verdict_id u \<noteq> issue_id ?i"
    by (simp add: sampleIssue_def sampleVerdict_def)
  have h4: "issueCategory ?i \<in> {''Layout'', ''Terminology'', ''Mistranslation'', ''Other''}"
    by (simp add: sampleIssue_def)
  have h5: "\<not> isValid ?v" by (simp add: sampleVerdict_def)
  from verifier_drops_invalid [OF h1 h2 h3 h4 h5] show ?thesis .
qed

text \<open>
  C6. If the verifier's call throws on the primary and on the fallback model, or the
  response it gets has an empty body, or that response does not parse as JSON, then
  \<^verbatim>\<open>verifyIssues\<close> returns the report it was given, unchanged.
\<close>

theorem verifier_failure_returns_input:
  assumes "(primary = CallThrows \<and> fallback = CallThrows)
     \<or> primary = EmptyText \<or> (primary = CallThrows \<and> fallback = EmptyText)
     \<or> primary = InvalidJson \<or> (primary = CallThrows \<and> fallback = InvalidJson)"
  shows "verifyIssues primary fallback r = r"
  using assms by (auto simp: verifyIssues_def llmServiceScope_def)

theorem verifier_failure_returns_input_witness:
  "verifyIssues CallThrows CallThrows
      (sampleReport [sampleIssue ''Issue-02'' ''Layout'' None [''Resize container'']])
    = sampleReport [sampleIssue ''Issue-02'' ''Layout'' None [''Resize container'']]
   \<and> verifyIssues EmptyText (Parsed None)
      (sampleReport [sampleIssue ''Issue-02'' ''Layout'' None [''Resize container'']])
    = sampleReport [sampleIssue ''Issue-02'' ''Layout'' None [''Resize container'']]
   \<and> verifyIssues CallThrows InvalidJson
      (sampleReport [sampleIssue ''Issue-02'' ''Layout'' None [''Resize container'']])
    = sampleReport [sampleIssue ''Issue-02'' ''Layout'' None [''Resize container'']]"
  by (intro conjI verifier_failure_returns_input) simp_all

section \<open>Properties of scene detection\<close>









section \<open>Properties of the retry policy\<close>

lemma attemptsMade_simps:
  "attemptsMade [] = 0"
  "attemptsMade (Attempt m # v) = Suc (attemptsMade v)"
  "attemptsMade (Delay d # v) = attemptsMade v"
  "attemptsMade (w @ v) = attemptsMade w + attemptsMade v"
  by (simp_all add: attemptsMade_def)

lemma retry_zero:
  "retryWithBackoff fn 0 d w = fn w"
  by (simp add: retryWithBackoff.simps split: prod.splits sum.splits)

lemma retry_Suc:
  "retryWithBackoff fn (Suc n) d w =
     (case fn w of
        (Inr v, w1) \<Rightarrow> (Inr v, w1)
      | (Inl err, w1) \<Rightarrow> retryWithBackoff fn n (d * 2) (sleep d w1))"
  by (subst retryWithBackoff.simps) (simp split: prod.splits sum.splits)

lemma scope_primary: "llmServiceScope ''LLM_MODEL_ID'' = Inr LLM_MODEL_ID"
  by (simp add: llmServiceScope_def)

lemma scope_fallback: "llmServiceScope ''LLM_FALLBACK_MODEL_ID'' = Inl ReferenceError"
  by (simp add: llmServiceScope_def)

text \<open>The retried analysis on a model id that is bound: at most three runs.\<close>

lemma retry_analysisCall:
  fixes enf :: enforcer and dsq :: grader
  defines "run \<equiv> \<lambda>backend p m k. runAnalysis enf dsq p (backend m k)"
  shows "retryWithBackoff (analysisCall enf dsq backend p (Inr m)) 2 1000 w =
     (if \<not> isl (run backend p m (attemptsMade w))
      then (run backend p m (attemptsMade w), w @ [Attempt (Inr m)])
      else if \<not> isl (run backend p m (attemptsMade w + 1))
      then (run backend p m (attemptsMade w + 1),
            w @ [Attempt (Inr m), Delay 1000, Attempt (Inr m)])
      else (run backend p m (attemptsMade w + 2),
            w @ [Attempt (Inr m), Delay 1000, Attempt (Inr m), Delay 2000, Attempt (Inr m)]))"
proof -
  have two: "(2::nat) = Suc (Suc 0)" by simp
  show ?thesis
    unfolding two retry_Suc retry_zero
    by (auto simp: analysisCall_def run_def attemptsMade_simps sleep_def
        split: sum.splits)
qed

text \<open>
  The retried closure whose model id cannot be read: three attempts, each throwing the
  same error, and no run of the analysis.
\<close>

lemma retry_unbound:
  "retryWithBackoff (analysisCall enf dsq backend p (Inl err)) 2 1000 w =
     (Inl err, w @ [Attempt (Inl err), Delay 1000, Attempt (Inl err), Delay 2000,
                    Attempt (Inl err)])"
proof -
  have two: "(2::nat) = Suc (Suc 0)" by simp
  show ?thesis
    unfolding two retry_Suc retry_zero
    by (simp add: analysisCall_def sleep_def)
qed

lemma below_three: "k < (3::nat) \<longleftrightarrow> k = 0 \<or> k = 1 \<or> k = 2"
  by arith

text \<open>
  C5, on the code. With a credential present, when the first three runs of the analysis
  on the primary model all throw, \<^verbatim>\<open>retryWithBackoff\<close> has made exactly three attempts,
  with a wait of 1000 ms and then of 2000 ms between them, and gives the third error:
  so far the claim holds. The pipeline then retries, with the same budget, a closure
  that reads \<^verbatim>\<open>LLM_FALLBACK_MODEL_ID\<close>, which is not in scope. Each of its three attempts
  throws a \<^verbatim>\<open>ReferenceError\<close> before \<^verbatim>\<open>runAnalysis\<close> is entered, the backend is never asked
  on the fallback model, and the caller gets the \<^verbatim>\<open>ReferenceError\<close>, whatever the
  fallback model would have answered. The claim says the retried analysis is repeated
  against the fallback model.
\<close>

theorem fallback_model_never_called:
  assumes "apiKey \<noteq> None" and "apiKey \<noteq> Some []"
    and "\<forall>k<3. isl (runAnalysis enf dsq p (backend LLM_MODEL_ID (attemptsMade w + k)))"
  shows "retryWithBackoff (analysisCall enf dsq backend p (llmServiceScope ''LLM_MODEL_ID''))
             2 1000 w
           = (runAnalysis enf dsq p (backend LLM_MODEL_ID (attemptsMade w + 2)),
              w @ [Attempt (Inr LLM_MODEL_ID), Delay 1000, Attempt (Inr LLM_MODEL_ID),
                   Delay 2000, Attempt (Inr LLM_MODEL_ID)])
       \<and> callTranslationQaLLM enf dsq backend apiKey p w
           = (Inl ReferenceError,
              w @ [Attempt (Inr LLM_MODEL_ID), Delay 1000, Attempt (Inr LLM_MODEL_ID),
                   Delay 2000, Attempt (Inr LLM_MODEL_ID),
                   Attempt (Inl ReferenceError), Delay 1000, Attempt (Inl ReferenceError),
                   Delay 2000, Attempt (Inl ReferenceError)])"
proof -
  let ?P = "LLM_MODEL_ID"
  let ?w1 = "w @ [Attempt (Inr ?P), Delay 1000, Attempt (Inr ?P), Delay 2000, Attempt (Inr ?P)]"
  from assms(3) have f0: "isl (runAnalysis enf dsq p (backend ?P (attemptsMade w)))"
    and f1: "isl (runAnalysis enf dsq p (backend ?P (attemptsMade w + 1)))"
    and f2: "isl (runAnalysis enf dsq p (backend ?P (attemptsMade w + 2)))"
    by (simp_all add: below_three)
  have primary: "retryWithBackoff (analysisCall enf dsq backend p (llmServiceScope ''LLM_MODEL_ID''))
        2 1000 w
      = (runAnalysis enf dsq p (backend ?P (attemptsMade w + 2)), ?w1)"
    unfolding scope_primary using f0 f1 by (simp add: retry_analysisCall)
  from f2 obtain err where err: "runAnalysis enf dsq p (backend ?P (attemptsMade w + 2)) = Inl err"
    by (cases "runAnalysis enf dsq p (backend ?P (attemptsMade w + 2))") auto
  have call: "callTranslationQaLLM enf dsq backend apiKey p w
      = (Inl ReferenceError,
         ?w1 @ [Attempt (Inl ReferenceError), Delay 1000, Attempt (Inl ReferenceError),
                Delay 2000, Attempt (Inl ReferenceError)])"
    unfolding callTranslationQaLLM_def primary err scope_fallback retry_unbound
    using assms(1,2) by auto
  from primary call show ?thesis by simp
qed

theorem fallback_model_never_called_witness:
  "callTranslationQaLLM sampleEnforce sampleGrade fallbackAnswers (Some ''key'')
       (samplePayload None) []
     = (Inl ReferenceError,
        [Attempt (Inr LLM_MODEL_ID), Delay 1000, Attempt (Inr LLM_MODEL_ID), Delay 2000,
         Attempt (Inr LLM_MODEL_ID),
         Attempt (Inl ReferenceError), Delay 1000, Attempt (Inl ReferenceError),
         Delay 2000, Attempt (Inl ReferenceError)])
   \<and> runAnalysis sampleEnforce sampleGrade (samplePayload None)
        (fallbackAnswers LLM_FALLBACK_MODEL_ID 3)
     = Inr ((sampleReport [])\<lparr>overall := sampleOverall\<lparr>qualityLevel := ''Perfect''\<rparr>\<rparr>)"
proof
  have ids: "LLM_MODEL_ID \<noteq> LLM_FALLBACK_MODEL_ID"
    by (simp add: LLM_MODEL_ID_def LLM_FALLBACK_MODEL_ID_def)
  have runP: "\<And>k. runAnalysis sampleEnforce sampleGrade (samplePayload None)
      (fallbackAnswers LLM_MODEL_ID k) = Inl EmptyResponse"
    using ids by (simp add: runAnalysis_def fallbackAnswers_def sampleAttempt_def)
  have h1: "Some ''key'' \<noteq> None" and h2: "Some ''key'' \<noteq> Some []" by simp_all
  have h3: "\<forall>k<3. isl (runAnalysis sampleEnforce sampleGrade (samplePayload None)
      (fallbackAnswers LLM_MODEL_ID (attemptsMade [] + k)))"
    by (simp add: runP)
  note inst = fallback_model_never_called
    [where backend = fallbackAnswers and w = "[]" and enf = sampleEnforce
       and dsq = sampleGrade and p = "samplePayload None" and apiKey = "Some ''key''",
     OF h1 h2 h3]
  from inst [THEN conjunct2]
  show "callTranslationQaLLM sampleEnforce sampleGrade fallbackAnswers (Some ''key'')
       (samplePayload None) []
     = (Inl ReferenceError,
        [Attempt (Inr LLM_MODEL_ID), Delay 1000, Attempt (Inr LLM_MODEL_ID), Delay 2000,
         Attempt (Inr LLM_MODEL_ID),
         Attempt (Inl ReferenceError), Delay 1000, Attempt (Inl ReferenceError),
         Delay 2000, Attempt (Inl ReferenceError)])"
    by simp
next
  show "runAnalysis sampleEnforce sampleGrade (samplePayload None)
        (fallbackAnswers LLM_FALLBACK_MODEL_ID 3)
     = Inr ((sampleReport [])\<lparr>overall := sampleOverall\<lparr>qualityLevel := ''Perfect''\<rparr>\<rparr>)"
    by (simp add: runAnalysis_def fallbackAnswers_def sampleAttempt_def sampleOutput_def
        normalizeReport_def samplePayload_def sanitizeReport_def sampleEnforce_def
        sampleGrade_def sampleReport_def Let_def)
qed

section \<open>Properties of the client pipeline\<close>

lemma mergeVerdict_suggestions:
  "mergeVerdict m j = Some i \<Longrightarrow>
     issue_id i = issue_id j \<and> suggestionsTarget i = suggestionsTarget j"
  by (auto simp: mergeVerdict_def Let_def split: option.splits if_splits)

lemma verifyIssues_suggestions:
  assumes "i \<in> set (issues (verifyIssues primary fallback r))"
  shows "\<exists>j\<in>set (issues r). issue_id i = issue_id j \<and> suggestionsTarget i = suggestionsTarget j"
proof (cases primary)
  case (Parsed vs)
  with assms obtain j where "j \<in> set (issues r)" "mergeVerdict (verifiedIssuesMap vs) j = Some i"
    by (auto simp: verifyIssues_Parsed set_map_filter)
  then show ?thesis using mergeVerdict_suggestions by blast
next
  case CallThrows
  with assms show ?thesis by (auto simp: verifyIssues_primary_throws)
next
  case EmptyText
  with assms show ?thesis by (auto simp: verifyIssues_def)
next
  case InvalidJson
  with assms show ?thesis by (auto simp: verifyIssues_def)
qed

lemma sanitizeIssue_suggestions:
  "issue_id (sanitizeIssue ids i) = issue_id i
     \<and> suggestionsTarget (sanitizeIssue ids i) = suggestionsTarget i"
  by (simp add: sanitizeIssue_def)

lemma sanitizeReport_suggestions:
  assumes "i \<in> set (issues (sanitizeReport r g))"
  shows "\<exists>j\<in>set (issues r). issue_id i = issue_id j \<and> suggestionsTarget i = suggestionsTarget j"
proof (cases "g = None \<or> g = Some []")
  case True
  then have "sanitizeReport r g = r" by (auto simp: sanitizeReport_def)
  with assms show ?thesis by auto
next
  case False
  then obtain t where "g = Some t" "t \<noteq> []" by (cases g) auto
  then have "issues (sanitizeReport r g) = map (sanitizeIssue (matchAll t)) (issues r)"
    by (simp add: sanitizeReport_def Let_def)
  with assms obtain j where "j \<in> set (issues r)" "i = sanitizeIssue (matchAll t) j" by auto
  then show ?thesis using sanitizeIssue_suggestions by blast
qed

text \<open>What a successful run of \<^verbatim>\<open>runAnalysis\<close> returns.\<close>

lemma runAnalysis_Inr:
  assumes "runAnalysis enf dsq p a = Inr r"
  obtains out where "generation a = Parsed out"
    and "issues r = issues (sanitizeReport
            (if length (issues (normalizeReport p out)) > 0
             then verifyIssues (verifierPrimary a) (verifierFallback a) (normalizeReport p out)
             else normalizeReport p out) (glossaryText p))"
    and "scores (overall r) = enf (issues r) (scores (overall (sanitizeReport
            (if length (issues (normalizeReport p out)) > 0
             then verifyIssues (verifierPrimary a) (verifierFallback a) (normalizeReport p out)
             else normalizeReport p out) (glossaryText p))))"
    and "qualityLevel (overall r) = dsq (issues r)"
proof -
  from assms obtain out where out: "generation a = Parsed out"
    by (cases "generation a") (auto simp: runAnalysis_def split: if_splits)
  with assms have ok: "imagesOk a" by (auto simp: runAnalysis_def split: if_splits)
  let ?v = "sanitizeReport
            (if length (issues (normalizeReport p out)) > 0
             then verifyIssues (verifierPrimary a) (verifierFallback a) (normalizeReport p out)
             else normalizeReport p out) (glossaryText p)"
  from assms out ok have r: "r = ?v\<lparr>overall := (overall ?v)\<lparr>scores := enf (issues ?v) (scores (overall ?v)),
       qualityLevel := dsq (issues ?v)\<rparr>\<rparr>"
    by (simp add: runAnalysis_def Let_def)
  have 1: "issues r = issues ?v" by (subst r) simp
  have 2: "scores (overall r) = enf (issues ?v) (scores (overall ?v))" by (subst r) simp
  have 3: "qualityLevel (overall r) = dsq (issues ?v)" by (subst r) simp
  from out 1 2 3 that show thesis by simp
qed

lemma runAnalysis_suggestions:
  assumes "runAnalysis enf dsq p a = Inr r"
  shows "\<exists>out. generation a = Parsed out \<and>
     (\<forall>i\<in>set (issues r). \<exists>j\<in>set (case out_issues out of None \<Rightarrow> [] | Some l \<Rightarrow> l).
         issue_id i = issue_id j \<and> suggestionsTarget i = suggestionsTarget j)"
proof -
  from assms obtain out where out: "generation a = Parsed out"
    and iss: "issues r = issues (sanitizeReport
            (if length (issues (normalizeReport p out)) > 0
             then verifyIssues (verifierPrimary a) (verifierFallback a) (normalizeReport p out)
             else normalizeReport p out) (glossaryText p))"
    by (rule runAnalysis_Inr)
  have n: "issues (normalizeReport p out) = (case out_issues out of None \<Rightarrow> [] | Some l \<Rightarrow> l)"
    by (simp add: normalizeReport_def)
  have "\<exists>j\<in>set (issues (normalizeReport p out)).
         issue_id i = issue_id j \<and> suggestionsTarget i = suggestionsTarget j"
    if "i \<in> set (issues r)" for i
  proof -
    from that iss obtain j where j: "j \<in> set (issues (if length (issues (normalizeReport p out)) > 0
             then verifyIssues (verifierPrimary a) (verifierFallback a) (normalizeReport p out)
             else normalizeReport p out))"
      "issue_id i = issue_id j" "suggestionsTarget i = suggestionsTarget j"
      using sanitizeReport_suggestions by metis
    show ?thesis
    proof (cases "length (issues (normalizeReport p out)) > 0")
      case True
      with j(1) have "j \<in> set (issues (verifyIssues (verifierPrimary a) (verifierFallback a)
          (normalizeReport p out)))" by simp
      from verifyIssues_suggestions [OF this] j(2,3) show ?thesis by auto
    next
      case False
      with j show ?thesis by auto
    qed
  qed
  with out n show ?thesis by auto
qed

lemma retry_result:
  "fst (retryWithBackoff fn n d w) = Inr v \<Longrightarrow> \<exists>w1. fst (fn w1) = Inr v"
proof (induction n arbitrary: d w)
  case 0
  then show ?case by (auto simp: retry_zero)
next
  case (Suc n)
  show ?case
  proof (cases "fn w")
    case (Pair res w1)
    show ?thesis
    proof (cases res)
      case (Inl err)
      with Pair Suc.prems have "fst (retryWithBackoff fn n (d * 2) (sleep d w1)) = Inr v"
        by (simp add: retry_Suc)
      then show ?thesis by (rule Suc.IH)
    next
      case (Inr v1)
      with Pair Suc.prems have "fst (fn w) = Inr v" by (simp add: retry_Suc)
      then show ?thesis by blast
    qed
  qed
qed

lemma callTranslationQaLLM_result:
  assumes "fst (callTranslationQaLLM enf dsq backend apiKey p w) = Inr r"
  shows "\<exists>m k. runAnalysis enf dsq p (backend m k) = Inr r"
proof -
  let ?primary = "retryWithBackoff (analysisCall enf dsq backend p (Inr LLM_MODEL_ID)) 2 1000 w"
  from assms have key: "\<not> (apiKey = None \<or> apiKey = Some [])"
    by (auto simp: callTranslationQaLLM_def split: if_splits)
  obtain res w1 where first: "?primary = (res, w1)" by (cases ?primary)
  have "fst ?primary = Inr r"
  proof (cases res)
    case (Inl err)
    with assms key first show ?thesis
      by (simp add: callTranslationQaLLM_def scope_primary scope_fallback retry_unbound)
  next
    case (Inr v)
    with assms key first show ?thesis
      by (simp add: callTranslationQaLLM_def scope_primary)
  qed
  from retry_result [OF this]
  obtain w2 where "fst (analysisCall enf dsq backend p (Inr LLM_MODEL_ID) w2) = Inr r" by blast
  then show ?thesis by (auto simp: analysisCall_def)
qed

lemma run_sample:
  "runAnalysis sampleEnforce sampleGrade (samplePayload None)
      (sampleAttempt (Parsed (sampleOutput [i])))
    = Inr ((sampleReport [i])\<lparr>overall := sampleOverall\<lparr>qualityLevel := ''Poor''\<rparr>\<rparr>)"
  by (simp add: runAnalysis_def sampleAttempt_def sampleOutput_def normalizeReport_def
      samplePayload_def verifyIssues_def sanitizeReport_def sampleEnforce_def sampleGrade_def
      sampleReport_def Let_def)

lemma call_first_attempt:
  assumes "apiKey \<noteq> None" "apiKey \<noteq> Some []"
    and "runAnalysis enf dsq p (backend LLM_MODEL_ID (attemptsMade w)) = Inr r"
  shows "fst (callTranslationQaLLM enf dsq backend apiKey p w) = Inr r"
  using assms by (simp add: callTranslationQaLLM_def scope_primary retry_analysisCall)

text \<open>
  C1, as stated, fails: nothing in the pipeline looks at \<^verbatim>\<open>suggestionsTarget\<close>. The
  schema that asks for a non-empty array is sent to the backend with the request and is
  not checked on the response. When the backend answers with an issue whose array is
  empty (no glossary, the verifier's calls throwing), the call succeeds at its first
  attempt and the report carries that issue with its empty array.
\<close>

theorem empty_suggestions_counterexample:
  "fst (callTranslationQaLLM sampleEnforce sampleGrade emptySuggestions (Some ''key'')
          (samplePayload None) [])
     = Inr ((sampleReport [sampleIssue ''Issue-02'' ''Layout'' None []])
              \<lparr>overall := sampleOverall\<lparr>qualityLevel := ''Poor''\<rparr>\<rparr>)
   \<and> suggestionsTarget (sampleIssue ''Issue-02'' ''Layout'' None []) = []"
proof
  show "fst (callTranslationQaLLM sampleEnforce sampleGrade emptySuggestions (Some ''key'')
          (samplePayload None) [])
     = Inr ((sampleReport [sampleIssue ''Issue-02'' ''Layout'' None []])
              \<lparr>overall := sampleOverall\<lparr>qualityLevel := ''Poor''\<rparr>\<rparr>)"
    by (rule call_first_attempt) (simp_all add: emptySuggestions_def run_sample)
next
  show "suggestionsTarget (sampleIssue ''Issue-02'' ''Layout'' None []) = []"
    by (simp add: sampleIssue_def)
qed

text \<open>
  C1, amended. For every report that \<^verbatim>\<open>callTranslationQaLLM\<close> returns, there is an
  attempt whose generation response parsed, and every issue of the report has the id and
  the \<^verbatim>\<open>suggestionsTarget\<close> array of an issue of that response: the pipeline passes the
  arrays through. So every issue of the report has a non-empty array provided every
  issue in the backend's responses has one.
\<close>

theorem suggestions_passed_through:
  assumes "fst (callTranslationQaLLM enf dsq backend apiKey p w) = Inr r"
  shows "(\<exists>m k out. generation (backend m k) = Parsed out \<and>
           (\<forall>i\<in>set (issues r). \<exists>j\<in>set (case out_issues out of None \<Rightarrow> [] | Some l \<Rightarrow> l).
               issue_id i = issue_id j \<and> suggestionsTarget i = suggestionsTarget j))
       \<and> ((\<forall>m k out. generation (backend m k) = Parsed out \<longrightarrow>
              (\<forall>j\<in>set (case out_issues out of None \<Rightarrow> [] | Some l \<Rightarrow> l).
                  suggestionsTarget j \<noteq> []))
            \<longrightarrow> (\<forall>i\<in>set (issues r). suggestionsTarget i \<noteq> []))"
proof -
  from callTranslationQaLLM_result [OF assms]
  obtain m k where run: "runAnalysis enf dsq p (backend m k) = Inr r" by blast
  from runAnalysis_suggestions [OF run]
  obtain out where out: "generation (backend m k) = Parsed out"
    and same: "\<forall>i\<in>set (issues r). \<exists>j\<in>set (case out_issues out of None \<Rightarrow> [] | Some l \<Rightarrow> l).
         issue_id i = issue_id j \<and> suggestionsTarget i = suggestionsTarget j" by blast
  show ?thesis
  proof (intro conjI impI ballI)
    from out same show "\<exists>m k out. generation (backend m k) = Parsed out \<and>
           (\<forall>i\<in>set (issues r). \<exists>j\<in>set (case out_issues out of None \<Rightarrow> [] | Some l \<Rightarrow> l).
               issue_id i = issue_id j \<and> suggestionsTarget i = suggestionsTarget j)" by blast
  next
    fix i
    assume all: "\<forall>m k out. generation (backend m k) = Parsed out \<longrightarrow>
              (\<forall>j\<in>set (case out_issues out of None \<Rightarrow> [] | Some l \<Rightarrow> l).
                  suggestionsTarget j \<noteq> [])"
      and i: "i \<in> set (issues r)"
    from same i obtain j where "j \<in> set (case out_issues out of None \<Rightarrow> [] | Some l \<Rightarrow> l)"
      "suggestionsTarget i = suggestionsTarget j" by blast
    with all out show "suggestionsTarget i \<noteq> []" by metis
  qed
qed

theorem suggestions_passed_through_witness:
  "fst (callTranslationQaLLM sampleEnforce sampleGrade goodSuggestions (Some ''key'')
          (samplePayload None) [])
     = Inr ((sampleReport [sampleIssue ''Issue-02'' ''Layout'' None [''Resize container'']])
              \<lparr>overall := sampleOverall\<lparr>qualityLevel := ''Poor''\<rparr>\<rparr>)
   \<and> list_all (\<lambda>i. suggestionsTarget i \<noteq> [])
        (issues ((sampleReport [sampleIssue ''Issue-02'' ''Layout'' None [''Resize container'']])
              \<lparr>overall := sampleOverall\<lparr>qualityLevel := ''Poor''\<rparr>\<rparr>))"
proof -
  let ?r = "(sampleReport [sampleIssue ''Issue-02'' ''Layout'' None [''Resize container'']])
              \<lparr>overall := sampleOverall\<lparr>qualityLevel := ''Poor''\<rparr>\<rparr>"
  have res: "fst (callTranslationQaLLM sampleEnforce sampleGrade goodSuggestions (Some ''key'')
          (samplePayload None) []) = Inr ?r"
    by (rule call_first_attempt) (simp_all add: goodSuggestions_def run_sample)
  have good: "\<forall>m k out. generation (goodSuggestions m k) = Parsed out \<longrightarrow>
              (\<forall>j\<in>set (case out_issues out of None \<Rightarrow> [] | Some l \<Rightarrow> l).
                  suggestionsTarget j \<noteq> [])"
    by (auto simp: goodSuggestions_def sampleAttempt_def sampleOutput_def sampleIssue_def)
  from suggestions_passed_through [OF res] good
  have "\<forall>i\<in>set (issues ?r). suggestionsTarget i \<noteq> []" by blast
  then have "list_all (\<lambda>i. suggestionsTarget i \<noteq> []) (issues ?r)"
    by (simp only: list_all_iff)
  with res show ?thesis by (rule conjI)
qed

section \<open>The server pipeline against the client pipeline\<close>

lemma sanitizeReport_overall:
  "qualityLevel (overall (sanitizeReport r g)) = qualityLevel (overall r)
   \<and> (scores (overall (sanitizeReport r g)) = scores (overall r)
        \<or> scores (overall (sanitizeReport r g)) = (scores (overall r))\<lparr>terminology := 5\<rparr>)"
proof (cases "g = None \<or> g = Some []")
  case True
  then have "sanitizeReport r g = r" by (auto simp: sanitizeReport_def)
  then show ?thesis by simp
next
  case False
  then obtain t where "g = Some t" "t \<noteq> []" by (cases g) auto
  then show ?thesis by (simp add: sanitizeReport_Some)
qed

lemma verifyIssuesServer_overall: "overall (verifyIssuesServer primary r) = overall r"
  by (cases primary) (simp_all add: verifyIssuesServer_def)

lemma analyzeAttempt_Inr:
  assumes "analyzeAttempt p a = Inr r" and "generation a = Parsed out"
  shows "r = sanitizeReport
            (if length (issues (normalizeReport p out)) > 0
             then verifyIssuesServer (verifierPrimary a) (normalizeReport p out)
             else normalizeReport p out) (glossaryText p)"
  using assms by (simp add: analyzeAttempt_def Let_def)

text \<open>
  C10. The server variant and the client variant do not give the same output on the same
  backend responses. In the server variant, the report of a successful attempt is the
  sanitized report of the verification stage and nothing more: its quality level is
  the one the model wrote, and its scores are the model's, as sanitization leaves them
  (sanitization sets the terminology score to 5 when no Terminology issue remains and
  touches no other score). In the client variant the issues are those of the sanitized
  report, the scores are the result of \<^verbatim>\<open>enforceScoreConsistency\<close> on it, and the quality
  level is the result of \<^verbatim>\<open>determineStrictQuality\<close>, whatever the model wrote. For every
  pair of these two functions there are backend responses on which both variants
  succeed with different reports.
\<close>

theorem server_and_client_differ:
  "(analyzeAttempt p a = Inr rs \<and> generation a = Parsed out \<longrightarrow>
       rs = sanitizeReport
              (if length (issues (normalizeReport p out)) > 0
               then verifyIssuesServer (verifierPrimary a) (normalizeReport p out)
               else normalizeReport p out) (glossaryText p)
     \<and> qualityLevel (overall rs) = qualityLevel (out_overall out)
     \<and> (scores (overall rs) = scores (out_overall out)
          \<or> scores (overall rs) = (scores (out_overall out))\<lparr>terminology := 5\<rparr>))
   \<and> (runAnalysis enf dsq p a = Inr rc \<and> generation a = Parsed out \<longrightarrow>
       issues rc = issues (sanitizeReport
              (if length (issues (normalizeReport p out)) > 0
               then verifyIssues (verifierPrimary a) (verifierFallback a) (normalizeReport p out)
               else normalizeReport p out) (glossaryText p))
     \<and> scores (overall rc) = enf (issues rc) (scores (overall (sanitizeReport
              (if length (issues (normalizeReport p out)) > 0
               then verifyIssues (verifierPrimary a) (verifierFallback a) (normalizeReport p out)
               else normalizeReport p out) (glossaryText p))))
     \<and> qualityLevel (overall rc) = dsq (issues rc))
   \<and> (\<exists>backend q rs1 rc1.
         fst (analyzeScreenshot backend (Some ''key'') q []) = Inr rs1
       \<and> fst (callTranslationQaLLM enf dsq backend (Some ''key'') q []) = Inr rc1
       \<and> rs1 \<noteq> rc1)"
proof (intro conjI impI)
  assume s: "analyzeAttempt p a = Inr rs \<and> generation a = Parsed out"
  let ?v = "if length (issues (normalizeReport p out)) > 0
               then verifyIssuesServer (verifierPrimary a) (normalizeReport p out)
               else normalizeReport p out"
  from s have s1: "analyzeAttempt p a = Inr rs" and s2: "generation a = Parsed out"
    by simp_all
  show rs: "rs = sanitizeReport ?v (glossaryText p)"
    using s1 s2 by (rule analyzeAttempt_Inr)
  have v: "overall ?v = out_overall out"
    by (simp add: verifyIssuesServer_overall normalizeReport_def)
  from sanitizeReport_overall [of ?v "glossaryText p"]
  show "qualityLevel (overall rs) = qualityLevel (out_overall out)"
    unfolding rs v by (rule conjunct1)
  from sanitizeReport_overall [of ?v "glossaryText p"]
  show "scores (overall rs) = scores (out_overall out)
          \<or> scores (overall rs) = (scores (out_overall out))\<lparr>terminology := 5\<rparr>"
    unfolding rs v by (rule conjunct2)
next
  assume c: "runAnalysis enf dsq p a = Inr rc \<and> generation a = Parsed out"
  then have run: "runAnalysis enf dsq p a = Inr rc" and out: "generation a = Parsed out"
    by simp_all
  from run out show "issues rc = issues (sanitizeReport
              (if length (issues (normalizeReport p out)) > 0
               then verifyIssues (verifierPrimary a) (verifierFallback a) (normalizeReport p out)
               else normalizeReport p out) (glossaryText p))"
    by (auto elim!: runAnalysis_Inr)
  from run out show "scores (overall rc) = enf (issues rc) (scores (overall (sanitizeReport
              (if length (issues (normalizeReport p out)) > 0
               then verifyIssues (verifierPrimary a) (verifierFallback a) (normalizeReport p out)
               else normalizeReport p out) (glossaryText p))))"
    by (auto elim!: runAnalysis_Inr)
  from run show "qualityLevel (overall rc) = dsq (issues rc)"
    by (auto elim!: runAnalysis_Inr)
next
  let ?q = "samplePayload None"
  let ?out = "(sampleOutput [])\<lparr>out_overall := sampleOverall\<lparr>qualityLevel := CHR ''x'' # dsq []\<rparr>\<rparr>"
  let ?a = "sampleAttempt (Parsed ?out)"
  let ?rs = "normalizeReport ?q ?out"
  have server_attempt: "analyzeAttempt ?q ?a = Inr ?rs"
    by (simp add: analyzeAttempt_def sampleAttempt_def Let_def normalizeReport_def
        sampleOutput_def samplePayload_def sanitizeReport_def)
  have server: "fst (analyzeScreenshot (labelled dsq) (Some ''key'') ?q []) = Inr ?rs"
    by (simp add: analyzeScreenshot_def numeral_2_eq_2 retry_Suc labelled_def server_attempt)
  obtain rc1 where client_attempt: "runAnalysis enf dsq ?q ?a = Inr rc1"
    by (simp add: runAnalysis_def sampleAttempt_def Let_def)
  have "generation ?a = Parsed ?out" by (simp add: sampleAttempt_def)
  with client_attempt have "qualityLevel (overall rc1) = dsq (issues rc1)" "issues rc1 = []"
    by (auto elim!: runAnalysis_Inr
        simp: normalizeReport_def sampleOutput_def samplePayload_def sanitizeReport_def)
  then have "qualityLevel (overall rc1) = dsq []" by simp
  moreover have "qualityLevel (overall ?rs) = CHR ''x'' # dsq []"
    by (simp add: normalizeReport_def)
  ultimately have ne: "?rs \<noteq> rc1" by auto
  have "fst (callTranslationQaLLM enf dsq (labelled dsq) (Some ''key'') ?q []) = Inr rc1"
    by (rule call_first_attempt) (simp_all add: labelled_def client_attempt)
  with server ne show "\<exists>backend q rs1 rc1.
         fst (analyzeScreenshot backend (Some ''key'') q []) = Inr rs1
       \<and> fst (callTranslationQaLLM enf dsq backend (Some ''key'') q []) = Inr rc1
       \<and> rs1 \<noteq> rc1" by blast
qed

theorem server_and_client_differ_witness:
  "analyzeAttempt (samplePayload None) (sampleAttempt (Parsed (sampleOutput [])))
     = Inr (sampleReport [])
   \<and> runAnalysis sampleEnforce sampleGrade (samplePayload None)
       (sampleAttempt (Parsed (sampleOutput [])))
     = Inr ((sampleReport [])\<lparr>overall := sampleOverall\<lparr>qualityLevel := ''Perfect''\<rparr>\<rparr>)
   \<and> qualityLevel (overall (sampleReport [])) = qualityLevel (out_overall (sampleOutput []))
   \<and> qualityLevel (out_overall (sampleOutput [])) = ''Good''
   \<and> qualityLevel (overall ((sampleReport [])\<lparr>overall :=
          sampleOverall\<lparr>qualityLevel := ''Perfect''\<rparr>\<rparr>))
       = sampleGrade (issues ((sampleReport [])\<lparr>overall :=
          sampleOverall\<lparr>qualityLevel := ''Perfect''\<rparr>\<rparr>))"
proof -
  let ?p = "samplePayload None" and ?out = "sampleOutput []"
  let ?a = "sampleAttempt (Parsed ?out)"
  let ?rs = "sampleReport []"
  let ?rc = "(sampleReport [])\<lparr>overall := sampleOverall\<lparr>qualityLevel := ''Perfect''\<rparr>\<rparr>"
  have g: "generation ?a = Parsed ?out" by (simp add: sampleAttempt_def)
  have s: "analyzeAttempt ?p ?a = Inr ?rs"
    by (simp add: analyzeAttempt_def sampleAttempt_def Let_def normalizeReport_def
        sampleOutput_def samplePayload_def sanitizeReport_def sampleReport_def)
  have c: "runAnalysis sampleEnforce sampleGrade ?p ?a = Inr ?rc"
    by (simp add: runAnalysis_def sampleAttempt_def sampleOutput_def normalizeReport_def
      samplePayload_def sanitizeReport_def sampleEnforce_def sampleGrade_def
      sampleReport_def Let_def)
  note inst = server_and_client_differ
    [where p = ?p and a = ?a and out = ?out and rs = ?rs and rc = ?rc
       and enf = sampleEnforce and dsq = sampleGrade]
  from inst s g have 1: "qualityLevel (overall ?rs) = qualityLevel (out_overall ?out)"
    by blast
  from inst c g have 2: "qualityLevel (overall ?rc) = sampleGrade (issues ?rc)"
    by blast
  have 3: "qualityLevel (out_overall ?out) = ''Good''"
    by (simp add: sampleOutput_def sampleOverall_def)
  from s c 1 3 2 show ?thesis by (intro conjI)
qed

end
